theory Spec2Isabelle
  imports Main "HOL-Library.Word"
begin

section \<open>Strings and JSON values of the runtime\<close>

text \<open>
  A JavaScript string is a sequence of 16-bit code units; \<open>length\<close> counts code units and
  \<open>===\<close> compares them one by one. \<open>js\<close> writes a literal.
\<close>

type_synonym code_unit = "16 word"
type_synonym jsstring = "code_unit list"

definition js :: "string \<Rightarrow> jsstring" where
  "js s = map (\<lambda>c. of_nat (of_char c)) s"

text \<open>
  The class \<open>\s\<close> of regular expressions, which is also what \<open>trim\<close> removes:
  tab, line feed, vertical tab, form feed, carriage return, space, no-break space, U+1680,
  U+2000 to U+200A, U+2028, U+2029, U+202F, U+205F, U+3000 and U+FEFF.
\<close>

definition isSpace :: "code_unit \<Rightarrow> bool" where
  "isSpace c = (c \<in> {0x09, 0x0A, 0x0B, 0x0C, 0x0D, 0x20, 0xA0, 0x1680, 0x2028, 0x2029,
                       0x202F, 0x205F, 0x3000, 0xFEFF}
                \<or> (0x2000 \<le> c \<and> c \<le> 0x200A))"

definition trim :: "jsstring \<Rightarrow> jsstring" where
  "trim s = rev (dropWhile isSpace (rev (dropWhile isSpace s)))"

text \<open>\<open>s.replace(/\s+/g, '')\<close>: every run of white space is deleted.\<close>

definition stripSpaces :: "jsstring \<Rightarrow> jsstring" where
  "stripSpaces s = filter (\<lambda>c. \<not> isSpace c) s"

text \<open>
  Lower case within the Basic Latin and Latin-1 blocks: A to Z, and U+00C0 to U+00DE
  without the multiplication sign, move up by 0x20; the other code units below U+0100 have
  no lower case of their own.
\<close>

definition lowerUnit :: "code_unit \<Rightarrow> code_unit" where
  "lowerUnit c =
     (if (0x41 \<le> c \<and> c \<le> 0x5A) \<or> (0xC0 \<le> c \<and> c \<le> 0xDE \<and> c \<noteq> 0xD7)
      then c + 0x20 else c)"

text \<open>\<open>s.includes(t)\<close>: \<open>t\<close> occurs in \<open>s\<close> as a contiguous block.\<close>

fun includes_str :: "jsstring \<Rightarrow> jsstring \<Rightarrow> bool" where
  "includes_str [] t = (t = [])"
| "includes_str (c # s) t = (take (length t) (c # s) = t \<or> includes_str s t)"

text \<open>
  \<open>s.indexOf(t, from)\<close> for \<open>from\<close> within the string: the first position at or after
  \<open>from\<close> where \<open>t\<close> starts, or \<open>-1\<close>.
\<close>

fun indexFrom :: "jsstring \<Rightarrow> jsstring \<Rightarrow> nat \<Rightarrow> int" where
  "indexFrom [] t k = (if t = [] then int k else -1)"
| "indexFrom (c # s) t k =
     (if take (length t) (c # s) = t then int k else indexFrom s t (Suc k))"

definition indexOf :: "jsstring \<Rightarrow> jsstring \<Rightarrow> nat \<Rightarrow> int" where
  "indexOf s t from = indexFrom (drop (min from (length s)) s) t (min from (length s))"

text \<open>
  \<open>s.substring(a, b)\<close>: both ends are clamped to the string (a negative one to 0) and
  swapped when out of order.
\<close>

definition substring :: "jsstring \<Rightarrow> int \<Rightarrow> int \<Rightarrow> jsstring" where
  "substring s a b =
     (let n = int (length s);
          a' = max 0 (min a n);
          b' = max 0 (min b n);
          lo = min a' b';
          hi = max a' b'
      in take (nat (hi - lo)) (drop (nat lo) s))"

text \<open>
  What \<open>JSON.parse\<close> returns. An object keeps its members in source order; a repeated
  key reads as its last occurrence. Numbers are the integers the pipeline writes (counts).
\<close>

datatype json =
    JNull
  | JBool bool
  | JNum int
  | JStr jsstring
  | JArr "json list"
  | JObj "(jsstring \<times> json) list"

definition getProp :: "(jsstring \<times> json) list \<Rightarrow> jsstring \<Rightarrow> json option" where
  "getProp members k = map_of (rev members) k"

section \<open>Census builder (scripts/census.ts)\<close>

record code_text =
  codigo :: jsstring
  texto :: jsstring

text \<open>A catalog item: its identifier and URL, and the two fields status mapping reads.\<close>

record BoeItem =
  identificador :: jsstring
  vigencia_agotada :: jsstring
  estado_consolidacion :: code_text
  url_html_consolidada :: jsstring

definition mapStatus :: "BoeItem \<Rightarrow> jsstring" where
  "mapStatus item =
     (if BoeItem.vigencia_agotada item = js ''S'' then js ''repealed''
      else if codigo (BoeItem.estado_consolidacion item) = js ''4'' then js ''amended''
      else js ''in_force'')"

text \<open>
  The seed directory: the content of \<open>SEED_DIR/<id>.json\<close> under the key \<open>id\<close>, for the
  files that exist.
\<close>

type_synonym seed_dir = "jsstring \<rightharpoonup> jsstring"

record seed_check =
  ingested :: bool
  provisionCount :: json
  ingestionDate :: json

text \<open>
  \<open>seed.provisions?.length ?? 0\<close>. Reading a property of \<open>null\<close> throws (the result is
  \<open>None\<close>); a missing or \<open>null\<close> value gives 0; arrays and strings have a length; an
  object answers with its own \<open>length\<close> member.
\<close>

fun provisionsLength :: "json \<Rightarrow> json option" where
  "provisionsLength JNull = None"
| "provisionsLength (JObj members) =
     (case getProp members (js ''provisions'') of
        None \<Rightarrow> Some (JNum 0)
      | Some JNull \<Rightarrow> Some (JNum 0)
      | Some (JArr xs) \<Rightarrow> Some (JNum (int (length xs)))
      | Some (JStr s) \<Rightarrow> Some (JNum (int (length s)))
      | Some (JObj inner) \<Rightarrow>
          (case getProp inner (js ''length'') of
             None \<Rightarrow> Some (JNum 0)
           | Some JNull \<Rightarrow> Some (JNum 0)
           | Some v \<Rightarrow> Some v)
      | Some _ \<Rightarrow> Some (JNum 0))"
| "provisionsLength _ = Some (JNum 0)"

text \<open>\<open>seed.ingestion_date ?? null\<close>, evaluated after the read above succeeded.\<close>

fun seedIngestionDate :: "json \<Rightarrow> json" where
  "seedIngestionDate (JObj members) =
     (case getProp members (js ''ingestion_date'') of None \<Rightarrow> JNull | Some v \<Rightarrow> v)"
| "seedIngestionDate _ = JNull"

definition notIngested :: seed_check where
  "notIngested = \<lparr> seed_check.ingested = False, provisionCount = JNum 0, ingestionDate = JNull \<rparr>"

text \<open>
  \<open>checkIngested\<close>. \<open>JSON_parse\<close> is the runtime's parser, \<open>None\<close> where it throws a
  SyntaxError; the \<open>catch\<close> block answers for that and for the property read on \<open>null\<close>.
\<close>

definition checkIngested ::
  "(jsstring \<Rightarrow> json option) \<Rightarrow> seed_dir \<Rightarrow> jsstring \<Rightarrow> seed_check" where
  "checkIngested JSON_parse seeds ident =
     (case seeds ident of
        Some content \<Rightarrow>
          (case JSON_parse content of
             None \<Rightarrow> notIngested
           | Some seed \<Rightarrow>
               (case provisionsLength seed of
                  None \<Rightarrow> notIngested
                | Some n \<Rightarrow>
                    \<lparr> seed_check.ingested = True, provisionCount = n,
                      ingestionDate = seedIngestionDate seed \<rparr>))
      | None \<Rightarrow> notIngested)"

section \<open>Structural parser (lib/parser.ts)\<close>

record ActIndexEntry =
  ident :: jsstring
  title :: jsstring
  shortName :: jsstring
  status :: jsstring
  issuedDate :: jsstring
  inForceDate :: jsstring
  url :: jsstring
  description :: "jsstring option"

record ParsedProvision =
  provision_ref :: jsstring
  chapter_heading :: "jsstring option"
  section_label :: jsstring
  title :: jsstring
  content :: jsstring

record ParsedDefinition =
  def_term :: jsstring
  def_definition :: jsstring
  source_provision :: "jsstring option"

record ParsedAct =
  ident :: jsstring
  act_type :: jsstring
  title :: jsstring
  title_en :: jsstring
  short_name :: jsstring
  status :: jsstring
  issued_date :: jsstring
  in_force_date :: jsstring
  url :: jsstring
  description :: "jsstring option"
  provisions :: "ParsedProvision list"
  definitions :: "ParsedDefinition list"

subsection \<open>stripHtml\<close>

text \<open>
  \<open>s.replace(re, rep)\<close> with a global expression whose matches are never empty:
  \<open>matchAt\<close> answers, for the rest of the string at the current position, how many code
  units the expression matches there. A match is replaced and scanning resumes behind it.
\<close>

fun replaceGo :: "(jsstring \<Rightarrow> nat option) \<Rightarrow> jsstring \<Rightarrow> nat \<Rightarrow> jsstring \<Rightarrow> jsstring" where
  "replaceGo matchAt rep skip [] = []"
| "replaceGo matchAt rep skip (c # s) =
     (if 0 < skip then replaceGo matchAt rep (skip - 1) s
      else (case matchAt (c # s) of
              Some n \<Rightarrow> rep @ replaceGo matchAt rep (n - 1) s
            | None \<Rightarrow> c # replaceGo matchAt rep 0 s))"

definition replaceAllBy :: "(jsstring \<Rightarrow> nat option) \<Rightarrow> jsstring \<Rightarrow> jsstring \<Rightarrow> jsstring" where
  "replaceAllBy matchAt rep s = replaceGo matchAt rep 0 s"

definition matchLiteral :: "jsstring \<Rightarrow> jsstring \<Rightarrow> nat option" where
  "matchLiteral lit s =
     (if lit \<noteq> [] \<and> take (length lit) s = lit then Some (length lit) else None)"

text \<open>
  Under the flag \<open>i\<close> (without \<open>u\<close>) an ASCII letter of the pattern matches exactly its
  two ASCII cases.
\<close>

definition lowerAscii :: "code_unit \<Rightarrow> code_unit" where
  "lowerAscii c = (if 0x41 \<le> c \<and> c \<le> 0x5A then c + 0x20 else c)"

definition ciPrefix :: "jsstring \<Rightarrow> jsstring \<Rightarrow> bool" where
  "ciPrefix lit s = (map lowerAscii (take (length lit) s) = lit)"

fun findCI :: "jsstring \<Rightarrow> jsstring \<Rightarrow> nat option" where
  "findCI lit [] = None"
| "findCI lit (c # s) =
     (if ciPrefix lit (c # s) then Some 0
      else (case findCI lit s of None \<Rightarrow> None | Some k \<Rightarrow> Some (Suc k)))"

text \<open>
  \<open>/<name[^>]*>[\s\S]*?<\/name>/gi\<close> for \<open>name\<close> in lower case: the opening tag up to
  its first \<open>>\<close>, then everything up to the first closing tag.
\<close>

definition matchElement :: "jsstring \<Rightarrow> jsstring \<Rightarrow> nat option" where
  "matchElement name s =
     (case s of
        [] \<Rightarrow> None
      | c # r0 \<Rightarrow>
          (if c = 0x3C then
             (if ciPrefix name r0 then
                (let r = drop (length name) r0;
                     attrs = takeWhile (\<lambda>d. d \<noteq> 0x3E) r
                 in case drop (length attrs) r of
                      [] \<Rightarrow> None
                    | _ # inner \<Rightarrow>
                        (case findCI ([0x3C, 0x2F] @ name @ [0x3E]) inner of
                           None \<Rightarrow> None
                         | Some k \<Rightarrow>
                             Some (1 + length name + length attrs + 1 + k
                                   + (length name + 3))))
              else None)
           else None))"

text \<open>\<open>/<[^>]+>/g\<close>.\<close>

definition matchTag :: "jsstring \<Rightarrow> nat option" where
  "matchTag s =
     (case s of
        [] \<Rightarrow> None
      | c # r \<Rightarrow>
          (if c = 0x3C then
             (let inside = takeWhile (\<lambda>d. d \<noteq> 0x3E) r
              in if inside \<noteq> [] \<and> drop (length inside) r \<noteq> []
                 then Some (length inside + 2) else None)
           else None))"

text \<open>\<open>/&#\d+;/g\<close>.\<close>

definition isDigit :: "code_unit \<Rightarrow> bool" where
  "isDigit c = (0x30 \<le> c \<and> c \<le> 0x39)"

definition matchNumericEntity :: "jsstring \<Rightarrow> nat option" where
  "matchNumericEntity s =
     (if take 2 s = [0x26, 0x23] then
        (let digits = takeWhile isDigit (drop 2 s)
         in if digits \<noteq> [] \<and> take 1 (drop (2 + length digits) s) = [0x3B]
            then Some (length digits + 3) else None)
      else None)"

text \<open>\<open>/\s+/g\<close>.\<close>

definition matchSpaces :: "jsstring \<Rightarrow> nat option" where
  "matchSpaces s =
     (let run = takeWhile isSpace s in if run \<noteq> [] then Some (length run) else None)"

text \<open>The named entities, in the order of the chain of replacements.\<close>

definition entities :: "(jsstring \<times> jsstring) list" where
  "entities =
     [(js ''&nbsp;'', js '' ''), (js ''&amp;'', js ''&''), (js ''&lt;'', js ''<''),
      (js ''&gt;'', js ''>''), (js ''&quot;'', [0x22]), (js ''&#39;'', [0x27]),
      (js ''&aacute;'', [0xE1]), (js ''&eacute;'', [0xE9]), (js ''&iacute;'', [0xED]),
      (js ''&oacute;'', [0xF3]), (js ''&uacute;'', [0xFA]), (js ''&ntilde;'', [0xF1]),
      (js ''&Aacute;'', [0xC1]), (js ''&Eacute;'', [0xC9]), (js ''&Iacute;'', [0xCD]),
      (js ''&Oacute;'', [0xD3]), (js ''&Uacute;'', [0xDA]), (js ''&Ntilde;'', [0xD1]),
      (js ''&uuml;'', [0xFC]), (js ''&Uuml;'', [0xDC]), (js ''&laquo;'', [0xAB]),
      (js ''&raquo;'', [0xBB]), (js ''&ordm;'', [0xBA]), (js ''&ordf;'', [0xAA]),
      (js ''&ndash;'', [0x2013]), (js ''&mdash;'', [0x2014])]"

definition stripHtml :: "jsstring \<Rightarrow> jsstring" where
  "stripHtml html =
     (let s1 = replaceAllBy (matchElement (js ''script'')) [] html;
          s2 = replaceAllBy (matchElement (js ''style'')) [] s1;
          s3 = replaceAllBy matchTag (js '' '') s2;
          s4 = foldl (\<lambda>s (entity, rep). replaceAllBy (matchLiteral entity) rep s) s3 entities;
          s5 = replaceAllBy matchNumericEntity [] s4;
          s6 = replaceAllBy matchSpaces (js '' '') s5
      in trim s6)"

subsection \<open>The regular expressions that locate structure\<close>

text \<open>
  The remaining expressions are searched by the runtime's engine. The parser is written
  over the engine's answers: for an expression run in an \<open>exec\<close> loop, the list of its
  successive matches (capture groups and \<open>index\<close>); for a single \<open>match\<close>, the first one.
  \<^item> \<open>chapterLevelPattern\<close>, \<open>chapterDivPattern\<close>: the two \<open>headingPatterns\<close> of
    \<open>findChapterHeading\<close>, group 1 of each match;
  \<^item> \<open>articuloRegex\<close>: group 1 (the \<open>id\<close> attribute, when it took part) and index;
  \<^item> \<open>artHeadingRegex\<close>: groups 1 and 2 and index;
  \<^item> \<open>headingElement\<close>: index and length of the first
    \<open>/<(?:h[3-6]|p)[^>]*>[\s\S]*?<\/(?:h[3-6]|p)>/\<close>;
  \<^item> \<open>h45Heading\<close>: groups 0 and 1 of \<open>/<h[45][^>]*>([\s\S]*?)<\/h[45]>/i\<close>;
  \<^item> \<open>numPattern\<close>, \<open>titlePattern\<close>, \<open>idPattern\<close>: group 1 of the expressions behind
    \<open>numMatch\<close>, \<open>titleMatch\<close> and \<open>idMatch\<close>;
  \<^item> \<open>letteredPattern\<close>, \<open>quotedPattern\<close>, \<open>numberedPattern\<close>: groups 1 and 2.

  The runtime also holds the Unicode case tables: \<open>unicodeLowerCase\<close> gives what
  \<open>String.prototype.toLowerCase\<close> puts in the place of a code unit from U+0100 on, given
  the code units before it and after it (a surrogate pair, a capital sigma at the end of a
  word).
\<close>

record js_runtime =
  chapterLevelPattern :: "jsstring \<Rightarrow> jsstring list"
  chapterDivPattern :: "jsstring \<Rightarrow> jsstring list"
  articuloRegex :: "jsstring \<Rightarrow> (jsstring option \<times> nat) list"
  artHeadingRegex :: "jsstring \<Rightarrow> (jsstring \<times> jsstring \<times> nat) list"
  headingElement :: "jsstring \<Rightarrow> (nat \<times> nat) option"
  h45Heading :: "jsstring \<Rightarrow> (jsstring \<times> jsstring) option"
  numPattern :: "jsstring \<Rightarrow> jsstring option"
  titlePattern :: "jsstring \<Rightarrow> jsstring option"
  idPattern :: "jsstring \<Rightarrow> jsstring option"
  letteredPattern :: "jsstring \<Rightarrow> (jsstring \<times> jsstring) list"
  quotedPattern :: "jsstring \<Rightarrow> (jsstring \<times> jsstring) list"
  numberedPattern :: "jsstring \<Rightarrow> (jsstring \<times> jsstring) list"
  unicodeLowerCase :: "jsstring \<Rightarrow> code_unit \<Rightarrow> jsstring \<Rightarrow> jsstring"

text \<open>
  \<open>s.toLowerCase()\<close>. A code unit below U+0100 is mapped by \<open>lowerUnit\<close>, whatever
  stands around it, and white space has no case; the lower case of any other code unit is
  read from the runtime's tables.
\<close>

fun lowerFrom :: "js_runtime \<Rightarrow> jsstring \<Rightarrow> jsstring \<Rightarrow> jsstring" where
  "lowerFrom rx before [] = []"
| "lowerFrom rx before (c # after) =
     (if c < 0x100 then [lowerUnit c]
      else if isSpace c then [c]
      else unicodeLowerCase rx before c after)
     @ lowerFrom rx (before @ [c]) after"

definition toLowerCase :: "js_runtime \<Rightarrow> jsstring \<Rightarrow> jsstring" where
  "toLowerCase rx s = lowerFrom rx [] s"

subsection \<open>findChapterHeading\<close>

definition scanHeadings :: "jsstring list \<Rightarrow> jsstring \<Rightarrow> jsstring" where
  "scanHeadings matches lastHeading =
     foldl (\<lambda>lastH m. let t = stripHtml m
                       in if 3 < length t \<and> length t < 300 then t else lastH)
           lastHeading matches"

fun scanPatterns :: "(jsstring \<Rightarrow> jsstring list) list \<Rightarrow> jsstring \<Rightarrow> jsstring \<Rightarrow> jsstring" where
  "scanPatterns [] beforeArticle lastHeading = lastHeading"
| "scanPatterns (pattern # rest) beforeArticle lastHeading =
     (let lastHeading' = scanHeadings (pattern beforeArticle) lastHeading
      in if lastHeading' \<noteq> [] then lastHeading'
         else scanPatterns rest beforeArticle lastHeading')"

definition findChapterHeading :: "js_runtime \<Rightarrow> jsstring \<Rightarrow> nat \<Rightarrow> jsstring" where
  "findChapterHeading rx html articlePos =
     (let beforeArticle = substring html (max 0 (int articlePos - 10000)) (int articlePos)
      in scanPatterns [chapterLevelPattern rx, chapterDivPattern rx] beforeArticle [])"

subsection \<open>extractDefinitions\<close>

text \<open>The guard on a candidate: \<open>term.length > 1 && term.length < 100 && definition.length > 10\<close>.\<close>

definition lengthsAccepted :: "jsstring \<Rightarrow> jsstring \<Rightarrow> bool" where
  "lengthsAccepted t d = (1 < length t \<and> length t < 100 \<and> 10 < length d)"

definition alreadyDefined ::
  "js_runtime \<Rightarrow> ParsedDefinition list \<Rightarrow> jsstring \<Rightarrow> jsstring \<Rightarrow> bool" where
  "alreadyDefined rx defs t sourceProvision =
     list_ex (\<lambda>d. toLowerCase rx (def_term d) = toLowerCase rx t
                   \<and> source_provision d = Some sourceProvision) defs"

definition mkDefinition :: "jsstring \<Rightarrow> jsstring \<Rightarrow> jsstring \<Rightarrow> ParsedDefinition" where
  "mkDefinition t d sourceProvision =
     \<lparr> def_term = t, def_definition = d, source_provision = Some sourceProvision \<rparr>"

text \<open>One round of the loop over the lettered pattern: no check for duplicates.\<close>

definition pushLettered ::
  "jsstring \<Rightarrow> ParsedDefinition list \<Rightarrow> jsstring \<times> jsstring \<Rightarrow> ParsedDefinition list" where
  "pushLettered sourceProvision defs m =
     (let t = trim (fst m); d = trim (snd m)
      in if lengthsAccepted t d then defs @ [mkDefinition t d sourceProvision] else defs)"

text \<open>One round of the loops over the quoted and the numbered pattern.\<close>

definition pushUnlessDefined ::
  "js_runtime \<Rightarrow> jsstring \<Rightarrow> ParsedDefinition list \<Rightarrow> jsstring \<times> jsstring
     \<Rightarrow> ParsedDefinition list" where
  "pushUnlessDefined rx sourceProvision defs m =
     (let t = trim (fst m); d = trim (snd m)
      in if lengthsAccepted t d then
           (if \<not> alreadyDefined rx defs t sourceProvision
            then defs @ [mkDefinition t d sourceProvision] else defs)
         else defs)"

definition extractDefinitions ::
  "js_runtime \<Rightarrow> jsstring \<Rightarrow> jsstring \<Rightarrow> ParsedDefinition list \<Rightarrow> ParsedDefinition list" where
  "extractDefinitions rx articleHtml sourceProvision defs =
     (let stripped = stripHtml articleHtml;
          defs1 = foldl (pushLettered sourceProvision) defs (letteredPattern rx stripped);
          defs2 = foldl (pushUnlessDefined rx sourceProvision) defs1 (quotedPattern rx stripped)
      in foldl (pushUnlessDefined rx sourceProvision) defs2 (numberedPattern rx stripped))"

subsection \<open>parseSpanishHtml\<close>

text \<open>The reference key of a provision, from the article number as matched.\<close>

definition normalizedNum :: "js_runtime \<Rightarrow> jsstring \<Rightarrow> jsstring" where
  "normalizedNum rx num = stripSpaces (toLowerCase rx num)"

definition provisionRef :: "js_runtime \<Rightarrow> jsstring \<Rightarrow> jsstring" where
  "provisionRef rx num = js ''art'' @ normalizedNum rx num"

text \<open>\<open>chapter || undefined\<close>: the empty string is no chapter.\<close>

definition orUndefined :: "jsstring \<Rightarrow> jsstring option" where
  "orUndefined s = (if s = [] then None else Some s)"

definition buildResult ::
  "ActIndexEntry \<Rightarrow> ParsedProvision list \<Rightarrow> ParsedDefinition list \<Rightarrow> ParsedAct" where
  "buildResult act provs defs =
     \<lparr> ident = ActIndexEntry.ident act, act_type = js ''statute'',
       title = ActIndexEntry.title act, title_en = [],
       short_name = shortName act, status = ActIndexEntry.status act,
       issued_date = issuedDate act, in_force_date = inForceDate act,
       url = ActIndexEntry.url act, description = ActIndexEntry.description act,
       provisions = provs, definitions = defs \<rparr>"

text \<open>\<open>s.replace(re, '')\<close> without the global flag: the first match is cut out.\<close>

definition removeFirst :: "(nat \<times> nat) option \<Rightarrow> jsstring \<Rightarrow> jsstring" where
  "removeFirst m s = (case m of None \<Rightarrow> s | Some (i, n) \<Rightarrow> take i s @ drop (i + n) s)"

text \<open>\<open>s.replace(/^[.\s]+/, '')\<close>.\<close>

definition dropLeadingDots :: "jsstring \<Rightarrow> jsstring" where
  "dropLeadingDots s = dropWhile (\<lambda>c. c = 0x2E \<or> isSpace c) s"

type_synonym parse_acc = "ParsedProvision list \<times> ParsedDefinition list"

text \<open>Strategy 2: the headings found by \<open>artHeadingRegex\<close>, as \<open>(num, title, pos)\<close>.\<close>

definition headingMatches :: "js_runtime \<Rightarrow> jsstring \<Rightarrow> (jsstring \<times> jsstring \<times> nat) list" where
  "headingMatches rx html =
     map (\<lambda>(m1, m2, idx). (stripSpaces (trim m1), stripHtml m2, idx)) (artHeadingRegex rx html)"

definition isDefinitionsHeading :: "js_runtime \<Rightarrow> jsstring \<Rightarrow> bool" where
  "isDefinitionsHeading rx t =
     (includes_str (toLowerCase rx t) (js ''definicion'')
      \<or> includes_str (toLowerCase rx t) (js ''definici'' @ [0xF3] @ js ''n''))"

text \<open>
  The body of the loop over \<open>headingMatches\<close>; \<open>endPos\<close> is the position of the next
  heading, or the length of the document for the last one.
\<close>

definition fallbackStep ::
  "js_runtime \<Rightarrow> jsstring \<Rightarrow> jsstring \<times> jsstring \<times> nat \<Rightarrow> nat \<Rightarrow> parse_acc \<Rightarrow> parse_acc" where
  "fallbackStep rx html hm endPos acc =
     (let num = fst hm; htitle = fst (snd hm); startPos = snd (snd hm);
          blockHtml = substring html (int startPos) (int endPos);
          bodyHtml = removeFirst (headingElement rx blockHtml) blockHtml;
          body = stripHtml bodyHtml
      in if length body < 5 then acc
         else
           (let chapter = findChapterHeading rx html startPos;
                provs = fst acc @
                  [\<lparr> provision_ref = provisionRef rx num,
                     chapter_heading = orUndefined chapter,
                     section_label = normalizedNum rx num,
                     ParsedProvision.title = htitle,
                     content = substring body 0 12000 \<rparr>]
            in if isDefinitionsHeading rx htitle
               then (provs, extractDefinitions rx blockHtml (provisionRef rx num) (snd acc))
               else (provs, snd acc)))"

fun fallbackLoop ::
  "js_runtime \<Rightarrow> jsstring \<Rightarrow> (jsstring \<times> jsstring \<times> nat) list \<Rightarrow> parse_acc \<Rightarrow> parse_acc" where
  "fallbackLoop rx html [] acc = acc"
| "fallbackLoop rx html (hm # rest) acc =
     fallbackLoop rx html rest
       (fallbackStep rx html hm
          (case rest of [] \<Rightarrow> length html | nxt # _ \<Rightarrow> snd (snd nxt)) acc)"

text \<open>Strategy 1: the \<open>.articulo\<close> containers, as \<open>(id, pos)\<close> with \<open>match[1] ?? ''\<close>.\<close>

definition articuloStarts :: "js_runtime \<Rightarrow> jsstring \<Rightarrow> (jsstring \<times> nat) list" where
  "articuloStarts rx html =
     map (\<lambda>(g, idx). (case g of None \<Rightarrow> [] | Some i \<Rightarrow> i, idx)) (articuloRegex rx html)"

definition isDefinitionsArticle :: "js_runtime \<Rightarrow> jsstring \<Rightarrow> jsstring \<Rightarrow> bool" where
  "isDefinitionsArticle rx t body =
     (includes_str (toLowerCase rx t) (js ''definicion'')
      \<or> includes_str (toLowerCase rx t) (js ''definici'' @ [0xF3] @ js ''n'')
      \<or> includes_str (toLowerCase rx t) (js ''conceptos'')
      \<or> includes_str (toLowerCase rx body) (js ''a los efectos de'')
      \<or> includes_str (toLowerCase rx body) (js ''se entender'' @ [0xE1] @ js '' por''))"

text \<open>
  Article number and title from the \<open>h4\<close>/\<open>h5\<close> heading, then the fallback on the
  \<open>id\<close> attribute when the number is still empty.
\<close>

definition headingNumTitle ::
  "js_runtime \<Rightarrow> (jsstring \<times> jsstring) option \<Rightarrow> jsstring \<times> jsstring" where
  "headingNumTitle rx headingMatch =
     (case headingMatch of
        None \<Rightarrow> ([], [])
      | Some (m0, m1) \<Rightarrow>
          (let headingText = stripHtml m1
           in ((case numPattern rx headingText of
                  None \<Rightarrow> [] | Some g \<Rightarrow> stripSpaces (trim g)),
               (case titlePattern rx headingText of
                  None \<Rightarrow> [] | Some g \<Rightarrow> dropLeadingDots (trim g)))))"

definition numFromId :: "js_runtime \<Rightarrow> jsstring \<Rightarrow> jsstring \<Rightarrow> jsstring" where
  "numFromId rx articleNum artId =
     (if articleNum = [] \<and> artId \<noteq> [] then
        (case idPattern rx artId of None \<Rightarrow> articleNum | Some g \<Rightarrow> g)
      else articleNum)"

text \<open>
  The body of the loop over \<open>articuloStarts\<close>; \<open>endPos\<close> is the position of the next
  container, or \<open>html.indexOf('</body>', startPos)\<close> for the last one.
\<close>

definition primaryStep ::
  "js_runtime \<Rightarrow> jsstring \<Rightarrow> jsstring \<times> nat \<Rightarrow> int \<Rightarrow> parse_acc \<Rightarrow> parse_acc" where
  "primaryStep rx html artStart endPos acc =
     (let artId = fst artStart; startPos = snd artStart;
          actualEnd = (if int startPos < endPos then endPos else int (length html));
          articleHtml = substring html (int startPos) actualEnd;
          headingMatch = h45Heading rx articleHtml;
          articleNum = numFromId rx (fst (headingNumTitle rx headingMatch)) artId;
          atitle = snd (headingNumTitle rx headingMatch)
      in if articleNum = [] then acc
         else
           (let contentHtml =
                  (case headingMatch of
                     None \<Rightarrow> articleHtml
                   | Some (m0, m1) \<Rightarrow>
                       substring articleHtml (indexOf articleHtml m0 0 + int (length m0))
                         (int (length articleHtml)));
                body = stripHtml contentHtml
            in if length body < 5 then acc
               else
                 (let chapter = findChapterHeading rx html startPos;
                      provs = fst acc @
                        [\<lparr> provision_ref = provisionRef rx articleNum,
                           chapter_heading = orUndefined chapter,
                           section_label = normalizedNum rx articleNum,
                           ParsedProvision.title = atitle,
                           content = substring body 0 12000 \<rparr>]
                  in if isDefinitionsArticle rx atitle body
                     then (provs,
                           extractDefinitions rx articleHtml (provisionRef rx articleNum) (snd acc))
                     else (provs, snd acc))))"

fun primaryLoop ::
  "js_runtime \<Rightarrow> jsstring \<Rightarrow> (jsstring \<times> nat) list \<Rightarrow> parse_acc \<Rightarrow> parse_acc" where
  "primaryLoop rx html [] acc = acc"
| "primaryLoop rx html (artStart # rest) acc =
     primaryLoop rx html rest
       (primaryStep rx html artStart
          (case rest of
             [] \<Rightarrow> indexOf html (js ''</body>'') (snd artStart)
           | nxt # _ \<Rightarrow> int (snd nxt)) acc)"

definition parseSpanishHtml :: "js_runtime \<Rightarrow> jsstring \<Rightarrow> ActIndexEntry \<Rightarrow> ParsedAct" where
  "parseSpanishHtml rx html act =
     (if articuloStarts rx html = [] then
        (let acc = fallbackLoop rx html (headingMatches rx html) ([], [])
         in buildResult act (fst acc) (snd acc))
      else
        (let acc = primaryLoop rx html (articuloStarts rx html) ([], [])
         in buildResult act (fst acc) (snd acc)))"

subsection \<open>Candidates of the definition patterns\<close>

text \<open>The definition a match would contribute, and the lengths of its trimmed groups.\<close>

definition candidate :: "jsstring \<Rightarrow> jsstring \<times> jsstring \<Rightarrow> ParsedDefinition" where
  "candidate sourceProvision m = mkDefinition (trim (fst m)) (trim (snd m)) sourceProvision"

definition termLength :: "jsstring \<times> jsstring \<Rightarrow> nat" where
  "termLength m = length (trim (fst m))"

definition definitionLength :: "jsstring \<times> jsstring \<Rightarrow> nat" where
  "definitionLength m = length (trim (snd m))"

text \<open>A definition with the term of \<open>m\<close>, up to case, for the same provision.\<close>

definition sameTerm ::
  "js_runtime \<Rightarrow> jsstring \<Rightarrow> jsstring \<times> jsstring \<Rightarrow> ParsedDefinition \<Rightarrow> bool" where
  "sameTerm rx sourceProvision m d =
     (toLowerCase rx (def_term d) = toLowerCase rx (trim (fst m))
      \<and> source_provision d = Some sourceProvision)"

text \<open>The bounds on a candidate, as they stand in the guard.\<close>

definition withinBounds :: "jsstring \<times> jsstring \<Rightarrow> bool" where
  "withinBounds m = (2 \<le> termLength m \<and> termLength m \<le> 99 \<and> 11 \<le> definitionLength m)"

text \<open>
  The candidates of the quoted and the numbered pattern that are retained, written from
  the rule and not from the loops: going through the candidates in the order of the
  matches, one within the bounds is retained unless a definition with its term, up to case,
  for the same provision is already there, among the definitions \<open>present\<close> before the
  first candidate or as a candidate within the bounds that came \<open>before\<close> it.
\<close>

fun retainedCandidates ::
  "js_runtime \<Rightarrow> jsstring \<Rightarrow> ParsedDefinition list \<Rightarrow> (jsstring \<times> jsstring) list
     \<Rightarrow> (jsstring \<times> jsstring) list \<Rightarrow> (jsstring \<times> jsstring) list" where
  "retainedCandidates rx src present before [] = []"
| "retainedCandidates rx src present before (m # ms) =
     (if withinBounds m
         \<and> \<not> list_ex (sameTerm rx src m)
               (present @ map (candidate src) (filter withinBounds before))
      then [m] else [])
     @ retainedCandidates rx src present (before @ [m]) ms"

subsection \<open>Article ordinals\<close>

text \<open>
  The ordinal of an article is what group 1 of the heading expressions matches,
  \<open>\d+[a-zA-Z]*(?:\s+(?:bis|ter|quater|quinquies|sexies|septies|octies))?\<close> under the flag
  \<open>i\<close>: a number, letters, and possibly white space and a modifier word. \<open>ordinalOf\<close> reads
  a string of that shape: the number, and the letters followed by the modifier, in lower
  case; that pair is the ordinal the string writes. Any other string is no ordinal.
\<close>

definition isLetter :: "code_unit \<Rightarrow> bool" where
  "isLetter c = ((0x41 \<le> c \<and> c \<le> 0x5A) \<or> (0x61 \<le> c \<and> c \<le> 0x7A))"

definition modifiers :: "jsstring list" where
  "modifiers = map js [''bis'', ''ter'', ''quater'', ''quinquies'', ''sexies'', ''septies'',
                       ''octies'']"

definition ordinalOf :: "jsstring \<Rightarrow> (jsstring \<times> jsstring) option" where
  "ordinalOf s =
     (let digits = takeWhile isDigit s;
          letters = takeWhile isLetter (dropWhile isDigit s);
          rest = dropWhile isLetter (dropWhile isDigit s);
          word = dropWhile isSpace rest
      in if digits = [] then None
         else if rest = [] then Some (digits, map lowerAscii letters)
         else if isSpace (hd rest) \<and> map lowerAscii word \<in> set modifiers
         then Some (digits, map lowerAscii letters @ map lowerAscii word)
         else None)"

text \<open>The code units an ordinal is written with.\<close>

definition ordinalUnit :: "code_unit \<Rightarrow> bool" where
  "ordinalUnit c = (isDigit c \<or> isLetter c \<or> isSpace c)"

text \<open>A code unit that is neither white space nor a capital letter.\<close>

definition plain :: "code_unit \<Rightarrow> bool" where
  "plain c = (\<not> isSpace c \<and> \<not> (0x41 \<le> c \<and> c \<le> 0x5A))"

subsection \<open>Invariants of the two loops\<close>

definition capped :: "ParsedProvision list \<Rightarrow> bool" where
  "capped ps = (\<forall>p \<in> set ps. length (content p) \<le> 12000)"

definition backed :: "parse_acc \<Rightarrow> bool" where
  "backed acc =
     (\<forall>d \<in> set (snd acc). \<exists>p \<in> set (fst acc). source_provision d = Some (provision_ref p))"


section \<open>Rate-limited fetcher (lib/fetcher.ts)\<close>

text \<open>
  What \<open>fetch\<close> meets on the network: the promise is rejected, or it resolves to a response
  of which the code reads the status, the text, the \<open>content-type\<close> header and the final
  URL. An exchange also takes time. The server is a function of the number of requests the
  process has issued before and of the URL.
\<close>

record http_response =
  http_status :: int
  http_text :: jsstring
  http_content_type :: "jsstring option"
  http_url :: jsstring

datatype fetch_outcome = Rejected jsstring | Responded http_response

record exchange =
  latency :: int
  outcome :: fetch_outcome

type_synonym server = "nat \<Rightarrow> jsstring \<Rightarrow> exchange"

record FetchResult =
  status :: int
  body :: jsstring
  contentType :: jsstring
  url :: jsstring

text \<open>
  The module's state: the clock \<open>Date.now()\<close> reads (milliseconds), the variable
  \<open>lastRequestTime\<close>, and a log of the requests issued, each with the time it started.
  Time passes in timers and in exchanges only.
\<close>

record fetcher =
  clock :: int
  lastRequestTime :: int
  requests :: "(int \<times> jsstring) list"

definition MIN_DELAY_MS :: int where
  "MIN_DELAY_MS = 500"

text \<open>\<open>await new Promise(resolve => setTimeout(resolve, ms))\<close>.\<close>

definition sleep :: "int \<Rightarrow> fetcher \<Rightarrow> fetcher" where
  "sleep ms st = st\<lparr> clock := clock st + max 0 ms \<rparr>"

definition rateLimit :: "fetcher \<Rightarrow> fetcher" where
  "rateLimit st =
     (let now = clock st;
          elapsed = now - lastRequestTime st;
          st1 = (if elapsed < MIN_DELAY_MS then sleep (MIN_DELAY_MS - elapsed) st else st)
      in st1\<lparr> lastRequestTime := clock st1 \<rparr>)"

text \<open>
  The two ways the function can fail: \<open>fetch\<close> was rejected, or the \<open>throw\<close> behind the
  loop was reached (its message names the URL and \<open>maxRetries\<close>).
\<close>

datatype error = FetchRejected jsstring | FailedToFetch jsstring int

definition retryable :: "int \<Rightarrow> bool" where
  "retryable s = (s = 429 \<or> 500 \<le> s)"

definition toFetchResult :: "http_response \<Rightarrow> FetchResult" where
  "toFetchResult response =
     \<lparr> status = http_status response,
       body = http_text response,
       contentType = (case http_content_type response of None \<Rightarrow> [] | Some c \<Rightarrow> c),
       url = http_url response \<rparr>"

text \<open>One request: logged at the current time, answered after the latency.\<close>

definition issue :: "server \<Rightarrow> jsstring \<Rightarrow> fetcher \<Rightarrow> fetch_outcome \<times> fetcher" where
  "issue srv u st =
     (let ex = srv (length (requests st)) u
      in (outcome ex,
          st\<lparr> requests := requests st @ [(clock st, u)],
              clock := clock st + max 0 (latency ex) \<rparr>))"

text \<open>
  The loop \<open>for (let attempt = 0; attempt <= maxRetries; attempt++)\<close>, from \<open>attempt\<close> on.
  \<open>maxRetries\<close> is an integer; every caller leaves it at the default 3.
\<close>

function attempts ::
  "server \<Rightarrow> jsstring \<Rightarrow> int \<Rightarrow> int \<Rightarrow> fetcher \<Rightarrow> (error + FetchResult) \<times> fetcher" where
  "attempts srv u maxRetries attempt st =
     (if attempt \<le> maxRetries then
        (case fst (issue srv u st) of
           Rejected msg \<Rightarrow> (Inl (FetchRejected msg), snd (issue srv u st))
         | Responded response \<Rightarrow>
             (if retryable (http_status response) then
                (if attempt < maxRetries then
                   attempts srv u maxRetries (attempt + 1)
                     (sleep (2 ^ nat (attempt + 1) * 1000) (snd (issue srv u st)))
                 else (Inr (toFetchResult response), snd (issue srv u st)))
              else (Inr (toFetchResult response), snd (issue srv u st))))
      else (Inl (FailedToFetch u maxRetries), st))"
  by pat_completeness auto
termination
  by (relation "measure (\<lambda>(srv, u, maxRetries, attempt, st). nat (maxRetries + 1 - attempt))")
     auto

declare attempts.simps [simp del]

definition fetchWithRateLimit ::
  "server \<Rightarrow> jsstring \<Rightarrow> int \<Rightarrow> fetcher \<Rightarrow> (error + FetchResult) \<times> fetcher" where
  "fetchWithRateLimit srv u maxRetries st = attempts srv u maxRetries 0 (rateLimit st)"

text \<open>Every exchange from request \<open>n\<close> to request \<open>n + k\<close> ends in a status 429 or 5xx.\<close>

definition retryableExchange :: "exchange \<Rightarrow> bool" where
  "retryableExchange ex =
     (case outcome ex of
        Rejected msg \<Rightarrow> False
      | Responded response \<Rightarrow> retryable (http_status response))"

definition allRetryable :: "server \<Rightarrow> jsstring \<Rightarrow> nat \<Rightarrow> nat \<Rightarrow> bool" where
  "allRetryable srv u n k = list_all (\<lambda>j. retryableExchange (srv (n + j) u)) [0..<Suc k]"

section \<open>Ingestion orchestrator (scripts/ingest.ts)\<close>

text \<open>
  The census document. A provision count is declared a number, but the run also stores
  there what it reads from a seed file, so the field and the total of the summary hold a
  value of the runtime.
\<close>

record CensusEntry =
  ident :: jsstring
  title :: jsstring
  identifier_boe :: jsstring
  url :: jsstring
  status :: jsstring
  category :: jsstring
  classification :: jsstring
  skip_reason :: "jsstring option"
  ingested :: bool
  provision_count :: json
  ingestion_date :: "jsstring option"
  rango_codigo :: jsstring
  rango :: jsstring
  ambito_codigo :: jsstring
  ambito :: jsstring
  departamento :: jsstring
  fecha_disposicion :: jsstring
  fecha_publicacion :: jsstring
  fecha_vigencia :: jsstring
  vigencia_agotada :: jsstring
  estado_consolidacion_codigo :: jsstring
  estado_consolidacion :: jsstring
  url_eli :: jsstring
  url_html_consolidada :: jsstring

record census_summary =
  total_laws :: int
  total_ingestable :: int
  total_not_ingestable :: int
  total_skip :: int
  total_ingested :: int
  total_provisions :: json
  scope_breakdown :: "(jsstring \<times> int) list"
  rango_breakdown :: "(jsstring \<times> int) list"

record Census =
  schema_version :: jsstring
  jurisdiction :: jsstring
  jurisdiction_name :: jsstring
  portal :: jsstring
  portal_url :: jsstring
  generated :: jsstring
  summary :: census_summary
  laws :: "CensusEntry list"

text \<open>
  The flags of a run. A \<open>limit\<close> that is absent or not a number is \<open>None\<close>; a
  \<open>batchSize\<close> that is not a number behaves as 0 (the remainder is then never 0).
\<close>

record options =
  limit :: "int option"
  skipFetch :: bool
  force :: bool
  batchSize :: int

text \<open>
  What the run takes from its host: the regular-expression engine, the server behind
  \<open>fetch\<close>, \<open>JSON.parse\<close> (\<open>None\<close> where it throws) and \<open>JSON.stringify\<close> on seed
  records, the date \<open>new Date().toISOString().slice(0, 10)\<close> at a given clock time, and
  the operator \<open>+\<close> on operands that are not both numbers.
\<close>

record host =
  engine :: js_runtime
  remote :: server
  JSON_parse :: "jsstring \<Rightarrow> json option"
  JSON_stringify :: "ParsedAct \<Rightarrow> jsstring"
  isoDate :: "int \<Rightarrow> jsstring"
  plusOther :: "json \<Rightarrow> json \<Rightarrow> json"

text \<open>
  \<open>a + b\<close> on the values a count can hold: two numbers are added; with any other operand
  (a string is concatenated, an array is first made a string) the result is the host's.
\<close>

definition jsPlus :: "host \<Rightarrow> json \<Rightarrow> json \<Rightarrow> json" where
  "jsPlus h a b =
     (case a of
        JNum x \<Rightarrow> (case b of JNum y \<Rightarrow> JNum (x + y) | _ \<Rightarrow> plusOther h a b)
      | _ \<Rightarrow> plusOther h a b)"

datatype result_status = Success | Skipped | Failed | Fallback

datatype result_error = HttpStatus int | Thrown error

record IngestionResult =
  result_id :: jsstring
  result_provisions :: json
  result_definitions :: int
  result_status :: result_status
  result_error :: "result_error option"

text \<open>
  The state of a run: the census object in memory, the files (the census document, the
  seed directory and the cache of raw markup, both keyed by item identifier), the fetcher
  module, and the tallies of the report. Writing a file always succeeds; what the run
  prints is left out.
\<close>

record ingest_state =
  census :: Census
  census_file :: "Census option"
  seed_files :: "jsstring \<rightharpoonup> jsstring"
  source_files :: "jsstring \<rightharpoonup> jsstring"
  net :: fetcher
  results :: "IngestionResult list"
  processed :: nat
  succeeded :: nat
  failed :: nat
  fallbacks :: nat
  skipped :: nat
  totalProvisions :: json
  totalDefinitions :: int

text \<open>\<open>a || b\<close> on strings: the empty string is falsy.\<close>

definition orElse :: "jsstring \<Rightarrow> jsstring \<Rightarrow> jsstring" where
  "orElse a b = (if a = [] then b else a)"

definition censusEntryToAct :: "CensusEntry \<Rightarrow> ActIndexEntry" where
  "censusEntryToAct entry =
     \<lparr> ActIndexEntry.ident = CensusEntry.ident entry,
       ActIndexEntry.title = CensusEntry.title entry,
       shortName = CensusEntry.ident entry,
       ActIndexEntry.status = CensusEntry.status entry,
       issuedDate = fecha_disposicion entry,
       inForceDate = orElse (fecha_vigencia entry) (fecha_disposicion entry),
       ActIndexEntry.url = orElse (url_html_consolidada entry) (CensusEntry.url entry),
       ActIndexEntry.description =
         Some (rango entry @ [0x20, 0x2014, 0x20] @ departamento entry) \<rparr>"

definition createFallbackSeed :: "ActIndexEntry \<Rightarrow> ParsedAct" where
  "createFallbackSeed act =
     \<lparr> ParsedAct.ident = ActIndexEntry.ident act, act_type = js ''statute'',
       ParsedAct.title = ActIndexEntry.title act, title_en = [],
       short_name = shortName act, ParsedAct.status = ActIndexEntry.status act,
       issued_date = issuedDate act, in_force_date = inForceDate act,
       ParsedAct.url = ActIndexEntry.url act,
       ParsedAct.description = ActIndexEntry.description act,
       provisions = [], definitions = [] \<rparr>"

text \<open>
  \<open>saveCensus\<close>: the two totals are recomputed on the object in memory, which is then
  written out.
\<close>

definition recalculate :: "host \<Rightarrow> Census \<Rightarrow> Census" where
  "recalculate h c =
     c\<lparr> summary := (summary c)
          \<lparr> total_ingested := int (length (filter ingested (laws c))),
            total_provisions :=
              foldl (\<lambda>total l. jsPlus h total (provision_count l)) (JNum 0) (laws c) \<rparr> \<rparr>"

definition saveCensus :: "host \<Rightarrow> ingest_state \<Rightarrow> ingest_state" where
  "saveCensus h st =
     st\<lparr> census := recalculate h (census st),
         census_file := Some (recalculate h (census st)) \<rparr>"

text \<open>
  \<open>censusMap\<close>: the entries of \<open>census.laws\<close> by identifier, an entry being known by its
  position in the array; a later entry with the same identifier replaces an earlier one.
\<close>

fun censusMapFrom ::
  "nat \<Rightarrow> CensusEntry list \<Rightarrow> (jsstring \<rightharpoonup> nat) \<Rightarrow> (jsstring \<rightharpoonup> nat)" where
  "censusMapFrom i [] m = m"
| "censusMapFrom i (entry # rest) m =
     censusMapFrom (Suc i) rest (m(CensusEntry.ident entry \<mapsto> i))"

definition censusMap :: "CensusEntry list \<Rightarrow> (jsstring \<rightharpoonup> nat)" where
  "censusMap entries = censusMapFrom 0 entries Map.empty"

text \<open>
  \<open>const censusEntry = censusMap.get(entry.id); if (censusEntry) { ... }\<close>: the entry
  found is changed in place.
\<close>

definition updateEntry ::
  "(jsstring \<rightharpoonup> nat) \<Rightarrow> jsstring \<Rightarrow> (CensusEntry \<Rightarrow> CensusEntry) \<Rightarrow> Census \<Rightarrow> Census" where
  "updateEntry cmap key f c =
     (case cmap key of
        None \<Rightarrow> c
      | Some i \<Rightarrow> c\<lparr> laws := (laws c)[i := f (laws c ! i)] \<rparr>)"

definition markIngested :: "json \<Rightarrow> jsstring \<Rightarrow> CensusEntry \<Rightarrow> CensusEntry" where
  "markIngested n date e =
     e\<lparr> ingested := True, provision_count := n, ingestion_date := Some date \<rparr>"

text \<open>
  The entry of a skipped item keeps a date it already has:
  \<open>censusEntry.ingestion_date || today\<close>.
\<close>

definition markSkipped :: "json \<Rightarrow> jsstring \<Rightarrow> CensusEntry \<Rightarrow> CensusEntry" where
  "markSkipped n date e =
     e\<lparr> ingested := True, provision_count := n,
        ingestion_date :=
          (case ingestion_date e of
             None \<Rightarrow> Some date
           | Some d \<Rightarrow> if d = [] then Some date else Some d) \<rparr>"

definition pushResult :: "IngestionResult \<Rightarrow> ingest_state \<Rightarrow> ingest_state" where
  "pushResult r st = st\<lparr> results := results st @ [r] \<rparr>"

definition today :: "host \<Rightarrow> ingest_state \<Rightarrow> jsstring" where
  "today h st = isoDate h (clock (net st))"

text \<open>
  Resume: a seed exists and the run is not forced. The seed is read for
  \<open>existing.provisions?.length ?? 0\<close>, and whatever that gives, a number or not, goes into
  the census entry, the tally and the result. When the seed does not parse, or the read
  throws, the \<open>catch\<close> block only tallies the item.
\<close>

definition skipExisting ::
  "host \<Rightarrow> (jsstring \<rightharpoonup> nat) \<Rightarrow> ActIndexEntry \<Rightarrow> jsstring \<Rightarrow> ingest_state \<Rightarrow> ingest_state" where
  "skipExisting h cmap act seed st =
     (case Option.bind (JSON_parse h seed) provisionsLength of
        Some provCount \<Rightarrow>
          pushResult
            \<lparr> result_id = ActIndexEntry.ident act, result_provisions = provCount,
              result_definitions = 0, result_status = Skipped, result_error = None \<rparr>
            (st\<lparr> census := updateEntry cmap (ActIndexEntry.ident act)
                               (markSkipped provCount (today h st)) (census st),
                 skipped := skipped st + 1,
                 totalProvisions := jsPlus h (totalProvisions st) provCount \<rparr>)
      | None \<Rightarrow>
          pushResult
            \<lparr> result_id = ActIndexEntry.ident act, result_provisions = JNum 0,
              result_definitions = 0, result_status = Skipped, result_error = None \<rparr>
            (st\<lparr> skipped := skipped st + 1 \<rparr>))"

text \<open>
  The fallback record, its census entry and the tally, for a response that is not 200
  (\<open>Fallback\<close>) and for an error caught (\<open>Failed\<close>).
\<close>

definition writeFallback ::
  "host \<Rightarrow> (jsstring \<rightharpoonup> nat) \<Rightarrow> ActIndexEntry \<Rightarrow> ingest_state \<Rightarrow> ingest_state" where
  "writeFallback h cmap act st =
     st\<lparr> seed_files := (seed_files st)
            (ActIndexEntry.ident act \<mapsto> JSON_stringify h (createFallbackSeed act)),
         census := updateEntry cmap (ActIndexEntry.ident act)
                     (markIngested (JNum 0) (today h st)) (census st) \<rparr>"

definition fallbackFor ::
  "host \<Rightarrow> (jsstring \<rightharpoonup> nat) \<Rightarrow> ActIndexEntry \<Rightarrow> int \<Rightarrow> ingest_state \<Rightarrow> ingest_state" where
  "fallbackFor h cmap act code st =
     pushResult
       \<lparr> result_id = ActIndexEntry.ident act, result_provisions = JNum 0,
         result_definitions = 0,
         result_status = Fallback, result_error = Some (HttpStatus code) \<rparr>
       ((writeFallback h cmap act st)\<lparr> fallbacks := fallbacks st + 1 \<rparr>)"

definition failedFor ::
  "host \<Rightarrow> (jsstring \<rightharpoonup> nat) \<Rightarrow> ActIndexEntry \<Rightarrow> error \<Rightarrow> ingest_state \<Rightarrow> ingest_state" where
  "failedFor h cmap act err st =
     pushResult
       \<lparr> result_id = ActIndexEntry.ident act, result_provisions = JNum 0,
         result_definitions = 0,
         result_status = Failed, result_error = Some (Thrown err) \<rparr>
       ((writeFallback h cmap act st)\<lparr> failed := failed st + 1 \<rparr>)"

text \<open>Parsing the markup, writing the seed, and marking the entry.\<close>

definition parseAndStore ::
  "host \<Rightarrow> (jsstring \<rightharpoonup> nat) \<Rightarrow> ActIndexEntry \<Rightarrow> jsstring \<Rightarrow> ingest_state \<Rightarrow> ingest_state" where
  "parseAndStore h cmap act html st =
     (let parsed = parseSpanishHtml (engine h) html act;
          provs = int (length (provisions parsed));
          defs = int (length (definitions parsed))
      in pushResult
           \<lparr> result_id = ActIndexEntry.ident act, result_provisions = JNum provs,
             result_definitions = defs, result_status = Success, result_error = None \<rparr>
           (st\<lparr> seed_files := (seed_files st)(ActIndexEntry.ident act \<mapsto> JSON_stringify h parsed),
                census := updateEntry cmap (ActIndexEntry.ident act)
                            (markIngested (JNum provs) (today h st)) (census st),
                succeeded := succeeded st + 1,
                totalProvisions := jsPlus h (totalProvisions st) (JNum provs),
                totalDefinitions := totalDefinitions st + defs \<rparr>))"

text \<open>The periodic save at the end of the loop body.\<close>

definition periodicSave :: "host \<Rightarrow> options \<Rightarrow> ingest_state \<Rightarrow> ingest_state" where
  "periodicSave h opts st =
     (if batchSize opts \<noteq> 0 \<and> int (processed st) mod batchSize opts = 0
      then saveCensus h st else st)"

text \<open>
  The body of the loop over \<open>pending\<close>. The branches that end in \<open>continue\<close> (the item
  is skipped, or the response is not 200) do not reach the periodic save. An error thrown
  by the fetch is caught; parsing does not throw. The loop reads from \<open>entry\<close> only fields
  that no round changes, so \<open>pending\<close> is a list of values, while the changes go to the
  entry of \<open>census.laws\<close> that the census map gives.
\<close>

definition processEntry ::
  "host \<Rightarrow> options \<Rightarrow> (jsstring \<rightharpoonup> nat) \<Rightarrow> ingest_state \<Rightarrow> CensusEntry \<Rightarrow> ingest_state" where
  "processEntry h opts cmap st0 entry =
     (let st = st0\<lparr> processed := processed st0 + 1 \<rparr>;
          act = censusEntryToAct entry;
          key = ActIndexEntry.ident act
      in if \<not> force opts \<and> seed_files st key \<noteq> None
         then skipExisting h cmap act (the (seed_files st key)) st
         else if source_files st key \<noteq> None \<and> skipFetch opts
         then periodicSave h opts (parseAndStore h cmap act (the (source_files st key)) st)
         else
           (case fetchWithRateLimit (remote h) (ActIndexEntry.url act) 3 (net st) of
              (Inl err, net') \<Rightarrow> periodicSave h opts (failedFor h cmap act err (st\<lparr> net := net' \<rparr>))
            | (Inr fetchResult, net') \<Rightarrow>
                if FetchResult.status fetchResult \<noteq> 200
                then fallbackFor h cmap act (FetchResult.status fetchResult) (st\<lparr> net := net' \<rparr>)
                else periodicSave h opts
                       (parseAndStore h cmap act (body fetchResult)
                          (st\<lparr> net := net',
                               source_files := (source_files st)(key \<mapsto> body fetchResult) \<rparr>))))"

fun ingestLoop ::
  "host \<Rightarrow> options \<Rightarrow> (jsstring \<rightharpoonup> nat) \<Rightarrow> CensusEntry list \<Rightarrow> ingest_state \<Rightarrow> ingest_state" where
  "ingestLoop h opts cmap [] st = st"
| "ingestLoop h opts cmap (entry # rest) st =
     ingestLoop h opts cmap rest (processEntry h opts cmap st entry)"

text \<open>The work list: the ingestable laws, without those already ingested unless forced.\<close>

definition pendingLaws :: "options \<Rightarrow> Census \<Rightarrow> CensusEntry list" where
  "pendingLaws opts c =
     (if force opts then filter (\<lambda>l. classification l = js ''ingestable'') (laws c)
      else filter (\<lambda>l. classification l = js ''ingestable'' \<and> \<not> ingested l) (laws c))"

text \<open>\<open>if (limit && pending.length > limit) pending = pending.slice(0, limit)\<close>.\<close>

definition applyLimit :: "int option \<Rightarrow> CensusEntry list \<Rightarrow> CensusEntry list" where
  "applyLimit lim pending =
     (case lim of
        None \<Rightarrow> pending
      | Some n \<Rightarrow>
          if n \<noteq> 0 \<and> n < int (length pending)
          then (if 0 \<le> n then take (nat n) pending
                else take (nat (int (length pending) + n)) pending)
          else pending)"

text \<open>
  \<open>main\<close>, from the files on disk and the state of the fetcher. Without a census document
  the process exits with code 1 (\<open>None\<close>). With nothing to ingest it returns before any
  save.
\<close>

record disk =
  disk_census :: "Census option"
  disk_seeds :: "jsstring \<rightharpoonup> jsstring"
  disk_sources :: "jsstring \<rightharpoonup> jsstring"

definition startState :: "Census \<Rightarrow> disk \<Rightarrow> fetcher \<Rightarrow> ingest_state" where
  "startState c d f =
     \<lparr> census = c, census_file = disk_census d, seed_files = disk_seeds d,
       source_files = disk_sources d, net = f, results = [], processed = 0, succeeded = 0,
       failed = 0, fallbacks = 0, skipped = 0, totalProvisions = JNum 0,
       totalDefinitions = 0 \<rparr>"

definition main :: "host \<Rightarrow> options \<Rightarrow> disk \<Rightarrow> fetcher \<Rightarrow> ingest_state option" where
  "main h opts d f =
     (case disk_census d of
        None \<Rightarrow> None
      | Some c \<Rightarrow>
          (let pending = applyLimit (limit opts) (pendingLaws opts c)
           in if pending = [] then Some (startState c d f)
              else Some (saveCensus h
                           (ingestLoop h opts (censusMap (laws c)) pending (startState c d f)))))"

text \<open>A count that is a number, and its value.\<close>

fun isNumber :: "json \<Rightarrow> bool" where
  "isNumber (JNum n) = True"
| "isNumber _ = False"

fun numberOf :: "json \<Rightarrow> int" where
  "numberOf (JNum n) = n"
| "numberOf _ = 0"

text \<open>
  The summary agrees with the entries: it counts the ingested ones, and when the provision
  counts are numbers its total is their sum.
\<close>

definition summaryConsistent :: "Census \<Rightarrow> bool" where
  "summaryConsistent c =
     (total_ingested (summary c) = int (length (filter ingested (laws c)))
      \<and> (list_all (\<lambda>l. isNumber (provision_count l)) (laws c) \<longrightarrow>
             total_provisions (summary c)
               = JNum (sum_list (map (\<lambda>l. numberOf (provision_count l)) (laws c)))))"

text \<open>Concrete inputs used below.\<close>

definition item_expired_outdated :: BoeItem where
  "item_expired_outdated =
     \<lparr> identificador = js ''BOE-A-1'', vigencia_agotada = js ''S'',
       estado_consolidacion = \<lparr> codigo = js ''4'', texto = js ''Desactualizado'' \<rparr>,
       url_html_consolidada = js ''u'' \<rparr>"

definition item_outdated :: BoeItem where
  "item_outdated =
     \<lparr> identificador = js ''BOE-A-2'', vigencia_agotada = js ''N'',
       estado_consolidacion = \<lparr> codigo = js ''4'', texto = js ''Desactualizado'' \<rparr>,
       url_html_consolidada = js ''u'' \<rparr>"

definition item_current :: BoeItem where
  "item_current =
     \<lparr> identificador = js ''BOE-A-3'', vigencia_agotada = js ''N'',
       estado_consolidacion = \<lparr> codigo = js ''3'', texto = js ''Finalizado'' \<rparr>,
       url_html_consolidada = js ''u'' \<rparr>"

text \<open>A parser that accepts the document \<open>{}\<close> only, and a directory with one broken seed.\<close>

definition parse_empty_object :: "jsstring \<Rightarrow> json option" where
  "parse_empty_object s = (if s = js ''{}'' then Some (JObj []) else None)"

definition broken_content :: jsstring where
  "broken_content = js ''{ provisions: [''"

definition broken_seeds :: seed_dir where
  "broken_seeds = [js ''BOE-A-1'' \<mapsto> broken_content]"

text \<open>
  A document with one container: the heading "Articulo 3 bis. Definiciones" in an \<open>h5\<close>
  element (the accented i as the code unit U+00ED), and the paragraph
  "a) Dato: cualquier informacion." (the accented o as U+00F3). The engine below gives the
  answers of the regular expressions on the strings the parser hands them for it.
\<close>

definition scenario_heading_text :: jsstring where
  "scenario_heading_text = js (''Art'' @ [CHR 0xED] @ ''culo 3 bis. Definiciones'')"

definition scenario_heading :: jsstring where
  "scenario_heading = js ''<h5>'' @ scenario_heading_text @ js ''</h5>''"

definition scenario_definition :: jsstring where
  "scenario_definition = js (''cualquier informaci'' @ [CHR 0xF3] @ ''n.'')"

definition scenario_body :: jsstring where
  "scenario_body = js ''<p>a) Dato: '' @ scenario_definition @ js ''</p></div>''"

definition scenario_html :: jsstring where
  "scenario_html = js ''<div class=\"articulo\">'' @ scenario_heading @ scenario_body"

definition scenario_stripped :: jsstring where
  "scenario_stripped = scenario_heading_text @ js '' a) Dato: '' @ scenario_definition"

text \<open>
  Two plain texts handed to \<open>extractDefinitions\<close>. In \<open>short_text\<close> the lettered
  pattern matches once, with the groups \<open>ab\<close> and \<open>123456789.\<close> (ten code units). In
  \<open>quoted_text\<close>, where the terms stand between the angle quotes U+00AB and U+00BB, the
  quoted pattern matches twice, the second time with the same term in lower case.
\<close>

definition short_text :: jsstring where
  "short_text = js ''a) ab: 123456789.''"

definition quoted_text :: jsstring where
  "quoted_text =
     js ([CHR 0xAB] @ ''Dato'' @ [CHR 0xBB] @ '': '') @ scenario_definition
       @ js ('' '' @ [CHR 0xAB] @ ''dato'' @ [CHR 0xBB] @ '': otra cosa distinta.'')"

definition scenario_engine :: js_runtime where
  "scenario_engine =
     \<lparr> chapterLevelPattern = (\<lambda>s. []),
       chapterDivPattern = (\<lambda>s. []),
       articuloRegex = (\<lambda>s. if s = scenario_html then [(None, 0)] else []),
       artHeadingRegex = (\<lambda>s. []),
       headingElement = (\<lambda>s. None),
       h45Heading = (\<lambda>s. if s = scenario_html
                           then Some (scenario_heading, scenario_heading_text) else None),
       numPattern = (\<lambda>s. if s = scenario_heading_text then Some (js ''3 bis'') else None),
       titlePattern = (\<lambda>s. if s = scenario_heading_text
                             then Some (js ''Definiciones'') else None),
       idPattern = (\<lambda>s. None),
       letteredPattern = (\<lambda>s. if s = scenario_stripped
                                then [(js ''Dato'', scenario_definition)]
                                else if s = short_text
                                then [(js ''ab'', js ''123456789.'')] else []),
       quotedPattern = (\<lambda>s. if s = quoted_text
                              then [(js ''Dato'', scenario_definition),
                                    (js ''dato'', js ''otra cosa distinta.'')]
                              else []),
       numberedPattern = (\<lambda>s. []),
       unicodeLowerCase = (\<lambda>before c after. [c]) \<rparr>"

definition scenario_act :: ActIndexEntry where
  "scenario_act =
     \<lparr> ActIndexEntry.ident = js ''BOE-A-2018-16673'', ActIndexEntry.title = js ''Ley'',
       shortName = js ''LOPDGDD'', ActIndexEntry.status = js ''in_force'',
       issuedDate = js ''2018-12-05'', inForceDate = js ''2018-12-07'',
       ActIndexEntry.url = js ''https://www.boe.es/buscar/act.php?id=BOE-A-2018-16673'',
       ActIndexEntry.description = None \<rparr>"

definition scenario_provision :: ParsedProvision where
  "scenario_provision =
     \<lparr> provision_ref = js ''art3bis'', chapter_heading = None, section_label = js ''3bis'',
       ParsedProvision.title = js ''Definiciones'',
       content = js ''a) Dato: '' @ scenario_definition \<rparr>"

definition scenario_dato :: ParsedDefinition where
  "scenario_dato =
     \<lparr> def_term = js ''Dato'', def_definition = scenario_definition,
       source_provision = Some (js ''art3bis'') \<rparr>"


definition quoted_dato :: ParsedDefinition where
  "quoted_dato =
     \<lparr> def_term = js ''Dato'', def_definition = scenario_definition,
       source_provision = Some (js ''art1'') \<rparr>"

text \<open>
  A process that has just started (\<open>lastRequestTime\<close> is 0), a server that always answers
  503, and one whose first answer is 503 and whose later answers are 200, each after 100 ms.
\<close>

definition fetcher0 :: fetcher where
  "fetcher0 = \<lparr> clock = 1000000, lastRequestTime = 0, requests = [] \<rparr>"

definition unavailable :: http_response where
  "unavailable =
     \<lparr> http_status = 503, http_text = js ''Service Unavailable'',
       http_content_type = Some (js ''text/html''), http_url = js ''https://www.boe.es/a'' \<rparr>"

definition page :: http_response where
  "page =
     \<lparr> http_status = 200, http_text = js ''<html></html>'',
       http_content_type = Some (js ''text/html''), http_url = js ''https://www.boe.es/a'' \<rparr>"

definition always_503 :: server where
  "always_503 k u = \<lparr> latency = 100, outcome = Responded unavailable \<rparr>"

definition recovers_after_one :: server where
  "recovers_after_one k u =
     \<lparr> latency = 100, outcome = Responded (if k = 0 then unavailable else page) \<rparr>"

text \<open>
  A census of one ingestable law that is not yet ingested, empty seed and cache
  directories, and a server that answers 404 to every request.
\<close>

definition entry1 :: CensusEntry where
  "entry1 =
     \<lparr> CensusEntry.ident = js ''BOE-A-2018-16673'',
       CensusEntry.title = js ''Ley'',
       identifier_boe = js ''BOE-A-2018-16673'',
       CensusEntry.url = js ''https://www.boe.es/a'',
       CensusEntry.status = js ''in_force'',
       category = js ''Ley'',
       classification = js ''ingestable'',
       skip_reason = None,
       ingested = False,
       provision_count = JNum 0,
       ingestion_date = None,
       rango_codigo = js ''1300'',
       rango = js ''Ley'',
       ambito_codigo = js ''1'',
       ambito = js ''Estatal'',
       departamento = js ''Jefatura del Estado'',
       fecha_disposicion = js ''2018-12-05'',
       fecha_publicacion = js ''2018-12-06'',
       fecha_vigencia = js ''2018-12-07'',
       vigencia_agotada = js ''N'',
       estado_consolidacion_codigo = js ''3'',
       estado_consolidacion = js ''Finalizado'',
       url_eli = [],
       url_html_consolidada = js ''https://www.boe.es/a'' \<rparr>"

definition census1 :: Census where
  "census1 =
     \<lparr> schema_version = js ''1.0'', jurisdiction = js ''ES'',
       jurisdiction_name = js ''Spain'', portal = js ''boe-open-data-api'',
       portal_url = js ''https://www.boe.es/datosabiertos/'', generated = js ''2026-01-14'',
       summary =
         \<lparr> total_laws = 1, total_ingestable = 1, total_not_ingestable = 0, total_skip = 0,
           total_ingested = 0, total_provisions = JNum 0,
           scope_breakdown = [(js ''Estatal'', 1)], rango_breakdown = [(js ''Ley'', 1)] \<rparr>,
       laws = [entry1] \<rparr>"

definition missing :: http_response where
  "missing =
     \<lparr> http_status = 404, http_text = js ''Not Found'',
       http_content_type = Some (js ''text/html''), http_url = js ''https://www.boe.es/a'' \<rparr>"

definition always_404 :: server where
  "always_404 k u = \<lparr> latency = 100, outcome = Responded missing \<rparr>"

definition render_id :: "ParsedAct \<Rightarrow> jsstring" where
  "render_id p = js ''{ id: '' @ ParsedAct.ident p @ js '' }''"

definition host1 :: host where
  "host1 =
     \<lparr> engine = scenario_engine, remote = always_404, JSON_parse = parse_empty_object,
       JSON_stringify = render_id, isoDate = (\<lambda>t. js ''2026-01-15''),
       plusOther = (\<lambda>a b. JNull) \<rparr>"

definition options1 :: options where
  "options1 = \<lparr> limit = None, skipFetch = False, force = False, batchSize = 500 \<rparr>"

definition disk1 :: disk where
  "disk1 = \<lparr> disk_census = Some census1, disk_seeds = Map.empty, disk_sources = Map.empty \<rparr>"

definition state1 :: ingest_state where
  "state1 = startState census1 disk1 fetcher0"

definition net1 :: fetcher where
  "net1 =
     \<lparr> clock = 1000100, lastRequestTime = 1000000,
       requests = [(1000000, js ''https://www.boe.es/a'')] \<rparr>"

text \<open>
  The same run with a census saved after every law, and a server that answers every
  request with the page.
\<close>

definition options_every :: options where
  "options_every = \<lparr> limit = None, skipFetch = False, force = False, batchSize = 1 \<rparr>"



definition host_503 :: host where
  "host_503 =
     \<lparr> engine = scenario_engine, remote = always_503, JSON_parse = parse_empty_object,
       JSON_stringify = render_id, isoDate = (\<lambda>t. js ''2026-01-15''),
       plusOther = (\<lambda>a b. JNull) \<rparr>"



section \<open>Properties of the census builder\<close>

text \<open>
  C7. Status mapping: an item whose expiry flag \<open>vigencia_agotada\<close> is \<open>S\<close> is
  \<open>repealed\<close> whatever its consolidation-status code; otherwise it is \<open>amended\<close> when the
  code is \<open>4\<close>; otherwise it is \<open>in_force\<close>.
\<close>

theorem mapStatus_precedence:
  "(BoeItem.vigencia_agotada item = js ''S'' \<longrightarrow> mapStatus item = js ''repealed'') \<and>
   (BoeItem.vigencia_agotada item \<noteq> js ''S'' \<and>
      codigo (BoeItem.estado_consolidacion item) = js ''4'' \<longrightarrow>
        mapStatus item = js ''amended'') \<and>
   (BoeItem.vigencia_agotada item \<noteq> js ''S'' \<and>
      codigo (BoeItem.estado_consolidacion item) \<noteq> js ''4'' \<longrightarrow>
        mapStatus item = js ''in_force'')"
  by (simp add: mapStatus_def)

theorem mapStatus_precedence_witness:
  "BoeItem.vigencia_agotada item_expired_outdated = js ''S'' \<and>
   codigo (BoeItem.estado_consolidacion item_expired_outdated) = js ''4'' \<and>
   mapStatus item_expired_outdated = js ''repealed'' \<and>
   BoeItem.vigencia_agotada item_outdated \<noteq> js ''S'' \<and>
   mapStatus item_outdated = js ''amended'' \<and>
   BoeItem.vigencia_agotada item_current \<noteq> js ''S'' \<and>
   codigo (BoeItem.estado_consolidacion item_current) \<noteq> js ''4'' \<and>
   mapStatus item_current = js ''in_force''"
  using mapStatus_precedence [of item_expired_outdated]
        mapStatus_precedence [of item_outdated]
        mapStatus_precedence [of item_current]
  by (simp add: item_expired_outdated_def item_outdated_def item_current_def js_def)

text \<open>
  C10. A seed file that exists but does not parse as JSON makes the cross-reference check
  answer "not ingested" (no provisions, no date); the check returns a value, it does not
  fail.
\<close>

theorem checkIngested_unparsable:
  "seeds k = Some raw \<Longrightarrow> parser raw = None \<Longrightarrow>
   checkIngested parser seeds k =
     \<lparr> seed_check.ingested = False, provisionCount = JNum 0, ingestionDate = JNull \<rparr>"
  by (simp add: checkIngested_def notIngested_def)

theorem checkIngested_unparsable_witness:
  "broken_seeds (js ''BOE-A-1'') = Some broken_content \<and>
   parse_empty_object broken_content = None \<and>
   checkIngested parse_empty_object broken_seeds (js ''BOE-A-1'') =
     \<lparr> seed_check.ingested = False, provisionCount = JNum 0, ingestionDate = JNull \<rparr>"
proof -
  have a: "broken_seeds (js ''BOE-A-1'') = Some broken_content"
    by (simp add: broken_seeds_def)
  have b: "parse_empty_object broken_content = None"
    by (simp add: parse_empty_object_def broken_content_def js_def)
  from checkIngested_unparsable
         [where seeds = broken_seeds and parser = parse_empty_object, OF a b] a b
  show ?thesis by simp
qed

section \<open>Properties of the parser\<close>

subsection \<open>Evaluating stripHtml\<close>

text \<open>A pass leaves a string alone that lacks the code unit every match starts with.\<close>

lemma replaceGo_absent:
  assumes m: "\<And>c t. c \<noteq> k \<Longrightarrow> m (c # t) = None"
  shows "k \<notin> set s \<Longrightarrow> replaceGo m rep 0 s = s"
  by (induction s) (auto simp: m)

lemma matchElement_head: "c \<noteq> 0x3C \<Longrightarrow> matchElement name (c # t) = None"
  by (simp add: matchElement_def)

lemma matchTag_head: "c \<noteq> 0x3C \<Longrightarrow> matchTag (c # t) = None"
  by (simp add: matchTag_def)

lemma matchNumericEntity_head: "c \<noteq> 0x26 \<Longrightarrow> matchNumericEntity (c # t) = None"
  by (simp add: matchNumericEntity_def)

lemma matchLiteral_head: "lit \<noteq> [] \<Longrightarrow> c \<noteq> hd lit \<Longrightarrow> matchLiteral lit (c # t) = None"
  by (cases lit) (auto simp: matchLiteral_def)

lemma entity_heads: "\<forall>e \<in> set entities. fst e \<noteq> [] \<and> hd (fst e) = 0x26"
  by (simp add: entities_def js_def)

lemma fold_entities_absent:
  assumes "0x26 \<notin> set s"
  shows "\<forall>e \<in> set es. fst e \<noteq> [] \<and> hd (fst e) = 0x26 \<Longrightarrow>
     foldl (\<lambda>s (entity, rep). replaceAllBy (matchLiteral entity) rep s) s es = s"
proof (induction es)
  case Nil
  then show ?case by simp
next
  case (Cons e es)
  obtain lit rep where e: "e = (lit, rep)" by (cases e)
  with Cons.prems have l: "lit \<noteq> []" "hd lit = 0x26" by auto
  have "replaceAllBy (matchLiteral lit) rep s = s"
    unfolding replaceAllBy_def
    by (rule replaceGo_absent [where k = "0x26"]) (use l assms in \<open>auto simp: matchLiteral_head\<close>)
  with Cons e show ?case by simp
qed

lemma numeric_absent: "0x26 \<notin> set s \<Longrightarrow> replaceAllBy matchNumericEntity [] s = s"
  unfolding replaceAllBy_def
  by (rule replaceGo_absent [where k = "0x26"]) (auto simp: matchNumericEntity_head)

lemma stripHtml_text:
  assumes "0x3C \<notin> set s" "0x26 \<notin> set s"
  shows "stripHtml s = trim (replaceAllBy matchSpaces (js '' '') s)"
proof -
  have a: "replaceAllBy (matchElement n) [] s = s" for n
    unfolding replaceAllBy_def
    by (rule replaceGo_absent [where k = "0x3C"]) (use assms in \<open>auto simp: matchElement_head\<close>)
  have b: "replaceAllBy matchTag r s = s" for r
    unfolding replaceAllBy_def
    by (rule replaceGo_absent [where k = "0x3C"]) (use assms in \<open>auto simp: matchTag_head\<close>)
  show ?thesis
    by (simp add: stripHtml_def Let_def a b numeric_absent [OF assms(2)]
          fold_entities_absent [OF assms(2) entity_heads])
qed

lemma stripHtml_markup:
  assumes "replaceAllBy matchTag (js '' '')
             (replaceAllBy (matchElement (js ''style'')) []
                (replaceAllBy (matchElement (js ''script'')) [] html)) = s"
      and "0x26 \<notin> set s"
  shows "stripHtml html = trim (replaceAllBy matchSpaces (js '' '') s)"
  by (simp add: stripHtml_def Let_def assms(1) numeric_absent [OF assms(2)]
        fold_entities_absent [OF assms(2) entity_heads])

lemmas scenario_defs = scenario_heading_text_def scenario_heading_def scenario_definition_def
  scenario_body_def scenario_html_def scenario_stripped_def

lemmas strip_eval = replaceAllBy_def matchElement_def matchTag_def matchSpaces_def ciPrefix_def
  lowerAscii_def isSpace_def trim_def Let_def

lemma strip_scenario_heading_text: "stripHtml scenario_heading_text = scenario_heading_text"
  by (subst stripHtml_text) (simp_all add: scenario_defs js_def strip_eval)

lemma strip_scenario_html: "stripHtml scenario_html = scenario_stripped"
  by (rule trans [OF stripHtml_markup [where s = "js '' '' @ js '' '' @ scenario_heading_text
        @ js '' '' @ js '' a) Dato: '' @ scenario_definition @ js '' '' @ js '' ''"]])
     (simp_all add: scenario_defs js_def strip_eval)

lemma strip_scenario_body: "stripHtml scenario_body = js ''a) Dato: '' @ scenario_definition"
  by (rule trans [OF stripHtml_markup [where s = "js '' '' @ js ''a) Dato: ''
        @ scenario_definition @ js '' '' @ js '' ''"]])
     (simp_all add: scenario_defs js_def strip_eval)

subsection \<open>The parser on the scenario\<close>

lemma scenario_texts_distinct:
  "scenario_stripped \<noteq> quoted_text" "scenario_stripped \<noteq> short_text"
  "short_text \<noteq> quoted_text"
  by (simp_all add: scenario_stripped_def scenario_heading_text_def quoted_text_def
        short_text_def js_def)

lemma scenario_extract:
  "extractDefinitions scenario_engine scenario_html (js ''art3bis'') [] = [scenario_dato]"
  by (simp add: extractDefinitions_def strip_scenario_html scenario_engine_def Let_def
        scenario_texts_distinct pushLettered_def lengthsAccepted_def mkDefinition_def
        scenario_dato_def)
     (simp add: trim_def isSpace_def js_def scenario_definition_def)

lemma substring_whole: "substring s 0 (int (length s)) = s"
  by (simp add: substring_def Let_def)

lemma substring_short: "length s \<le> n \<Longrightarrow> substring s 0 (int n) = s"
  by (simp add: substring_def Let_def)

lemma substring_cap: "length (substring s 0 (int n)) \<le> n"
  by (simp add: substring_def Let_def)

lemma substring_cap_12000: "length (substring s 0 12000) \<le> 12000"
  using substring_cap [of s 12000] by simp

text \<open>The cap bites: a longer body is cut to exactly 12000 code units, a shorter one is kept.\<close>

lemma substring_cuts: "12000 \<le> length s \<Longrightarrow> substring s 0 12000 = take 12000 s"
  by (simp add: substring_def Let_def)

lemma substring_keeps: "length s \<le> 12000 \<Longrightarrow> substring s 0 12000 = s"
  using substring_short [of s 12000] by simp

lemma scenario_no_body_tag: "indexOf scenario_html (js ''</body>'') 0 = -1"
  by (simp add: indexOf_def scenario_defs js_def)

lemma scenario_after_heading:
  "substring scenario_html (indexOf scenario_html scenario_heading 0 + int (length scenario_heading))
     (int (length scenario_html)) = scenario_body"
  by (simp add: indexOf_def substring_def Let_def scenario_defs js_def)

lemma scenario_num_title:
  "headingNumTitle scenario_engine (Some (scenario_heading, scenario_heading_text)) =
     (js ''3bis'', js ''Definiciones'')"
  by (simp add: headingNumTitle_def strip_scenario_heading_text scenario_engine_def Let_def)
     (simp add: trim_def stripSpaces_def dropLeadingDots_def isSpace_def js_def)

lemma scenario_no_chapter: "findChapterHeading scenario_engine scenario_html 0 = []"
  by (simp add: findChapterHeading_def scenario_engine_def scanHeadings_def Let_def)

lemma scenario_is_definitions:
  "isDefinitionsArticle scenario_engine (js ''Definiciones'') b"
  by (simp add: isDefinitionsArticle_def toLowerCase_def lowerUnit_def js_def)

lemma scenario_ref: "normalizedNum scenario_engine (js ''3bis'') = js ''3bis''"
  "provisionRef scenario_engine (js ''3bis'') = js ''art3bis''"
  by (simp_all add: provisionRef_def normalizedNum_def toLowerCase_def lowerUnit_def
        stripSpaces_def isSpace_def js_def)

lemma scenario_body_length: "length (js ''a) Dato: '' @ scenario_definition) = 31"
  by (simp add: scenario_definition_def js_def)

lemma scenario_step:
  "primaryStep scenario_engine scenario_html ([], 0) (-1) ([], []) =
     ([scenario_provision], [scenario_dato])"
proof -
  have h: "h45Heading scenario_engine scenario_html =
             Some (scenario_heading, scenario_heading_text)"
    by (simp add: scenario_engine_def)
  have n: "numFromId scenario_engine (js ''3bis'') [] = js ''3bis''"
    by (simp add: numFromId_def)
  have nz: "js ''3bis'' \<noteq> []" by (simp add: js_def)
  have len: "length (js ''a) Dato: '' @ scenario_definition) \<le> 12000"
    by (simp only: scenario_body_length)
  have big: "\<not> length (js ''a) Dato: '' @ scenario_definition) < 5"
    by (simp only: scenario_body_length)
  from substring_short [OF len]
  have cut: "substring (js ''a) Dato: '' @ scenario_definition) 0 12000 =
               js ''a) Dato: '' @ scenario_definition"
    by simp
  show ?thesis
    unfolding primaryStep_def
    by (simp add: Let_def substring_whole h scenario_num_title n nz scenario_after_heading
          strip_scenario_body big scenario_no_chapter orUndefined_def
          scenario_is_definitions scenario_ref scenario_extract cut scenario_provision_def
          del: length_append)
qed

lemma scenario_parse:
  "parseSpanishHtml scenario_engine scenario_html scenario_act =
     buildResult scenario_act [scenario_provision] [scenario_dato]"
proof -
  have s: "articuloStarts scenario_engine scenario_html = [([], 0)]"
    by (simp add: articuloStarts_def scenario_engine_def)
  show ?thesis
    by (simp add: parseSpanishHtml_def s scenario_no_body_tag scenario_step)
qed

subsection \<open>Truncation of provision bodies\<close>

lemma fallbackStep_capped:
  "capped (fst acc) \<Longrightarrow> capped (fst (fallbackStep rx html hm e acc))"
  by (simp add: fallbackStep_def Let_def capped_def substring_cap_12000)

lemma primaryStep_capped:
  "capped (fst acc) \<Longrightarrow> capped (fst (primaryStep rx html a e acc))"
  by (simp add: primaryStep_def Let_def capped_def substring_cap_12000)

lemma fallbackLoop_capped:
  "capped (fst acc) \<Longrightarrow> capped (fst (fallbackLoop rx html hms acc))"
  by (induction hms arbitrary: acc) (simp_all add: fallbackStep_capped)

lemma primaryLoop_capped:
  "capped (fst acc) \<Longrightarrow> capped (fst (primaryLoop rx html xs acc))"
  by (induction xs arbitrary: acc) (simp_all add: primaryStep_capped)

text \<open>
  C4. Whatever the markup and the item, and whichever of the two strategies produced it,
  every provision of the parsed act has a body of at most 12000 code units.
\<close>

theorem parseSpanishHtml_content_capped:
  "\<forall>p \<in> set (provisions (parseSpanishHtml rx html act)). length (content p) \<le> 12000"
proof -
  have "capped (fst (([], []) :: parse_acc))" by (simp add: capped_def)
  then have "capped (fst (fallbackLoop rx html (headingMatches rx html) ([], [])))"
    and "capped (fst (primaryLoop rx html (articuloStarts rx html) ([], [])))"
    by (rule fallbackLoop_capped, rule primaryLoop_capped)
  then show ?thesis
    by (simp add: parseSpanishHtml_def buildResult_def Let_def capped_def)
qed

theorem parseSpanishHtml_content_capped_witness:
  "scenario_provision \<in> set (provisions (parseSpanishHtml scenario_engine scenario_html scenario_act))
   \<and> length (content scenario_provision) \<le> 12000"
proof -
  have m: "scenario_provision \<in>
             set (provisions (parseSpanishHtml scenario_engine scenario_html scenario_act))"
    by (simp add: scenario_parse buildResult_def)
  with parseSpanishHtml_content_capped [of scenario_engine scenario_html scenario_act]
  show ?thesis by blast
qed

subsection \<open>Definitions point at retained provisions\<close>

lemma pushLettered_source:
  "d \<in> set (pushLettered src defs m) \<Longrightarrow> d \<in> set defs \<or> source_provision d = Some src"
  by (auto simp: pushLettered_def Let_def mkDefinition_def split: if_splits)

lemma pushUnlessDefined_source:
  "d \<in> set (pushUnlessDefined rx src defs m) \<Longrightarrow> d \<in> set defs \<or> source_provision d = Some src"
  by (auto simp: pushUnlessDefined_def Let_def mkDefinition_def split: if_splits)

lemma foldl_source:
  assumes step: "\<And>d defs m. d \<in> set (f defs m) \<Longrightarrow> d \<in> set defs \<or> source_provision d = Some src"
  shows "d \<in> set (foldl f defs ms) \<Longrightarrow> d \<in> set defs \<or> source_provision d = Some src"
proof (induction ms arbitrary: defs)
  case Nil
  then show ?case by simp
next
  case (Cons m ms)
  from Cons.IH [of "f defs m"] Cons.prems
  have "d \<in> set (f defs m) \<or> source_provision d = Some src" by simp
  with step show ?case by blast
qed

lemma foldl_pushLettered_source:
  "d \<in> set (foldl (pushLettered src) defs ms) \<Longrightarrow>
   d \<in> set defs \<or> source_provision d = Some src"
  by (rule foldl_source [where f = "pushLettered src"]) (rule pushLettered_source)

lemma foldl_pushUnlessDefined_source:
  "d \<in> set (foldl (pushUnlessDefined rx src) defs ms) \<Longrightarrow>
   d \<in> set defs \<or> source_provision d = Some src"
  by (rule foldl_source [where f = "pushUnlessDefined rx src"]) (rule pushUnlessDefined_source)

lemma extractDefinitions_source:
  "d \<in> set (extractDefinitions rx html src defs) \<Longrightarrow>
   d \<in> set defs \<or> source_provision d = Some src"
  unfolding extractDefinitions_def Let_def
  by (blast dest: foldl_pushLettered_source foldl_pushUnlessDefined_source)

lemma fallbackStep_backed: "backed acc \<Longrightarrow> backed (fallbackStep rx html hm e acc)"
  unfolding backed_def fallbackStep_def Let_def
  by (auto dest!: extractDefinitions_source)

lemma primaryStep_backed: "backed acc \<Longrightarrow> backed (primaryStep rx html a e acc)"
  unfolding backed_def primaryStep_def Let_def
  by (auto dest!: extractDefinitions_source)

lemma fallbackLoop_backed: "backed acc \<Longrightarrow> backed (fallbackLoop rx html hms acc)"
  by (induction hms arbitrary: acc) (simp_all add: fallbackStep_backed)

lemma primaryLoop_backed: "backed acc \<Longrightarrow> backed (primaryLoop rx html xs acc)"
  by (induction xs arbitrary: acc) (simp_all add: primaryStep_backed)

text \<open>
  C9. Every definition of the parsed act names, as its source provision, the reference key
  of a provision that is in the same result: definitions are only extracted for a
  provision that has just been retained.
\<close>

theorem parseSpanishHtml_definitions_backed:
  "\<forall>d \<in> set (definitions (parseSpanishHtml rx html act)).
     \<exists>p \<in> set (provisions (parseSpanishHtml rx html act)).
       source_provision d = Some (provision_ref p)"
proof -
  have "backed ([], [])" by (simp add: backed_def)
  then have "backed (fallbackLoop rx html (headingMatches rx html) ([], []))"
    and "backed (primaryLoop rx html (articuloStarts rx html) ([], []))"
    by (rule fallbackLoop_backed, rule primaryLoop_backed)
  then show ?thesis
    by (simp add: parseSpanishHtml_def buildResult_def Let_def backed_def)
qed

theorem parseSpanishHtml_definitions_backed_witness:
  "scenario_dato \<in> set (definitions (parseSpanishHtml scenario_engine scenario_html scenario_act))
   \<and> scenario_provision \<in>
       set (provisions (parseSpanishHtml scenario_engine scenario_html scenario_act))
   \<and> source_provision scenario_dato = Some (provision_ref scenario_provision)"
proof -
  have d: "scenario_dato \<in>
             set (definitions (parseSpanishHtml scenario_engine scenario_html scenario_act))"
    by (simp add: scenario_parse buildResult_def)
  have p: "provisions (parseSpanishHtml scenario_engine scenario_html scenario_act) =
             [scenario_provision]"
    by (simp add: scenario_parse buildResult_def)
  from parseSpanishHtml_definitions_backed [of scenario_engine scenario_html scenario_act] d
  have "\<exists>q \<in> set (provisions (parseSpanishHtml scenario_engine scenario_html scenario_act)).
          source_provision scenario_dato = Some (provision_ref q)"
    by blast
  with d p show ?thesis by simp
qed


subsection \<open>Reference keys\<close>

text \<open>Code units by their numbers.\<close>

lemma isSpace_unat:
  "isSpace c \<longleftrightarrow> unat c \<in> {9,10,11,12,13,32,160,5760,8232,8233,8239,8287,12288,65279}
      \<or> (8192 \<le> unat c \<and> unat c \<le> 8202)"
  by (simp add: isSpace_def word_le_nat_alt word_unat_eq_iff)

lemma isDigit_unat: "isDigit c \<longleftrightarrow> 48 \<le> unat c \<and> unat c \<le> 57"
  by (simp add: isDigit_def word_le_nat_alt)

lemma isLetter_unat: "isLetter c \<longleftrightarrow> (65 \<le> unat c \<and> unat c \<le> 90) \<or> (97 \<le> unat c \<and> unat c \<le> 122)"
  by (simp add: isLetter_def word_le_nat_alt)

lemma unat_plus32: "unat c \<le> 1000 \<Longrightarrow> unat (c + 0x20) = unat c + 32" for c :: code_unit
  by (simp add: unat_word_ariths)

lemma lowerAscii_unat:
  "unat (lowerAscii c) = (if 65 \<le> unat c \<and> unat c \<le> 90 then unat c + 32 else unat c)"
  by (simp add: lowerAscii_def word_le_nat_alt unat_plus32)

lemma lowerUnit_unat:
  "unat (lowerUnit c) =
     (if (65 \<le> unat c \<and> unat c \<le> 90) \<or> (192 \<le> unat c \<and> unat c \<le> 222 \<and> unat c \<noteq> 215)
      then unat c + 32 else unat c)"
  by (simp add: lowerUnit_def word_le_nat_alt unat_plus32 word_unat_eq_iff)

lemma low_unat: "c < 0x100 \<longleftrightarrow> unat c < 256" for c :: code_unit
  by (simp add: word_less_nat_alt)

lemmas unat_chars = isSpace_unat isDigit_unat isLetter_unat lowerAscii_unat lowerUnit_unat low_unat

lemma digit_facts:
  "isDigit c \<Longrightarrow> c < 0x100 \<and> lowerUnit c = c \<and> \<not> isSpace c \<and> \<not> isLetter c"
  by (auto simp: unat_chars word_unat_eq_iff)

lemma letter_facts:
  "isLetter c \<Longrightarrow> c < 0x100 \<and> lowerUnit c = lowerAscii c \<and> \<not> isSpace (lowerAscii c)
     \<and> \<not> isDigit (lowerAscii c) \<and> \<not> isDigit c \<and> \<not> isSpace c"
  by (auto simp: unat_chars word_unat_eq_iff)

lemma space_facts:
  "isSpace c \<Longrightarrow> (c < 0x100 \<longrightarrow> lowerUnit c = c) \<and> \<not> isDigit c \<and> \<not> isLetter c"
  by (auto simp: unat_chars word_unat_eq_iff)

text \<open>
  Lower-casing a string of digits, letters and white space and then deleting the white
  space: the runtime's tables are not consulted.
\<close>

lemma lowerFrom_ordinal:
  "list_all ordinalUnit s \<Longrightarrow>
   filter (\<lambda>c. \<not> isSpace c) (lowerFrom rx b s)
     = map lowerAscii (filter (\<lambda>c. \<not> isSpace c) s)"
proof (induction s arbitrary: b)
  case Nil
  then show ?case by simp
next
  case (Cons c s)
  from Cons.prems have u: "ordinalUnit c" and r: "list_all ordinalUnit s" by simp_all
  note ih = Cons.IH [OF r, of "b @ [c]"]
  from u consider "isDigit c" | "isLetter c" | "isSpace c" unfolding ordinalUnit_def by blast
  then show ?case
  proof cases
    case 1
    then have "lowerAscii c = c" by (auto simp: unat_chars word_unat_eq_iff)
    with digit_facts [OF 1] show ?thesis by (simp add: ih)
  next
    case 2
    from letter_facts [OF 2] show ?thesis by (simp add: ih)
  next
    case 3
    from space_facts [OF 3] 3 show ?thesis by (auto simp: ih)
  qed
qed

lemma normalizedNum_ordinal:
  "list_all ordinalUnit s \<Longrightarrow>
   normalizedNum rx s = map lowerAscii (filter (\<lambda>c. \<not> isSpace c) s)"
  by (simp add: normalizedNum_def stripSpaces_def toLowerCase_def lowerFrom_ordinal)

text \<open>The shape of a string that ordinalOf reads.\<close>

lemma ordinalOf_shape:
  assumes "ordinalOf s = Some x"
  shows "\<exists>d l sp w. s = d @ l @ sp @ w \<and> d \<noteq> [] \<and> list_all isDigit d \<and> list_all isLetter l
           \<and> list_all isSpace sp \<and> map lowerAscii w \<in> set ([] # modifiers)
           \<and> x = (d, map lowerAscii l @ map lowerAscii w)"
proof -
  define d where "d = takeWhile isDigit s"
  define l where "l = takeWhile isLetter (dropWhile isDigit s)"
  define rest where "rest = dropWhile isLetter (dropWhile isDigit s)"
  define sp where "sp = takeWhile isSpace rest"
  define w where "w = dropWhile isSpace rest"
  have s: "s = d @ l @ sp @ w"
    unfolding d_def l_def sp_def w_def rest_def by simp
  have dl: "list_all isDigit d" "list_all isLetter l" "list_all isSpace sp"
    unfolding d_def l_def sp_def by (auto simp: list_all_iff dest: set_takeWhileD)
  from assms have dne: "d \<noteq> []"
    by (auto simp: ordinalOf_def Let_def d_def split: if_splits)
  show ?thesis
  proof (cases "rest = []")
    case True
    with assms dne have "x = (d, map lowerAscii l)"
      by (auto simp: ordinalOf_def Let_def d_def l_def rest_def split: if_splits)
    moreover from True have "w = []" by (simp add: w_def)
    ultimately show ?thesis using s dl dne
      by (intro exI [of _ d] exI [of _ l] exI [of _ sp] exI [of _ w]) simp
  next
    case False
    with assms dne have "map lowerAscii w \<in> set modifiers"
      "x = (d, map lowerAscii l @ map lowerAscii w)"
      by (auto simp: ordinalOf_def Let_def d_def l_def rest_def w_def split: if_splits)
    then show ?thesis using s dl dne
      by (intro exI [of _ d] exI [of _ l] exI [of _ sp] exI [of _ w]) simp
  qed
qed

lemma modifier_letters:
  "m \<in> set ([] # modifiers) \<Longrightarrow> list_all (\<lambda>c. 97 \<le> unat c \<and> unat c \<le> 122) m"
  by (auto simp: modifiers_def js_def)

lemma lowered_letter: "97 \<le> unat (lowerAscii c) \<and> unat (lowerAscii c) \<le> 122 \<Longrightarrow> isLetter c"
  by (auto simp: unat_chars split: if_splits)

lemma modifier_word:
  assumes "map lowerAscii w \<in> set ([] # modifiers)"
  shows "list_all isLetter w"
proof -
  from modifier_letters [OF assms]
  have "\<forall>c \<in> set w. 97 \<le> unat (lowerAscii c) \<and> unat (lowerAscii c) \<le> 122"
    by (simp add: list_all_iff)
  then show ?thesis by (auto simp: list_all_iff intro: lowered_letter)
qed

lemma stripSpaces_trim: "stripSpaces (trim s) = stripSpaces s"
proof -
  have f: "filter (\<lambda>c. \<not> isSpace c) (dropWhile isSpace t) = filter (\<lambda>c. \<not> isSpace c) t" for t
    by (induction t) simp_all
  have "filter (\<lambda>c. \<not> isSpace c) (rev (dropWhile isSpace (rev (dropWhile isSpace s))))
          = rev (filter (\<lambda>c. \<not> isSpace c) (dropWhile isSpace (rev (dropWhile isSpace s))))"
    by (simp only: rev_filter)
  also have "\<dots> = rev (filter (\<lambda>c. \<not> isSpace c) (rev (dropWhile isSpace s)))"
    by (simp only: f)
  also have "\<dots> = filter (\<lambda>c. \<not> isSpace c) (dropWhile isSpace s)"
    by (simp add: rev_filter [symmetric])
  also have "\<dots> = filter (\<lambda>c. \<not> isSpace c) s" by (rule f)
  finally show ?thesis by (simp add: stripSpaces_def trim_def)
qed

lemma filter_none: "list_all P s \<Longrightarrow> filter (\<lambda>c. \<not> P c) s = []"
  by (induction s) simp_all

lemma filter_every: "list_all (\<lambda>c. \<not> P c) s \<Longrightarrow> filter (\<lambda>c. \<not> P c) s = s"
  by (induction s) simp_all

lemma ordinalOf_units:
  assumes "ordinalOf s = Some x"
  shows "list_all ordinalUnit s"
    and "list_all ordinalUnit (stripSpaces s)"
    and "map lowerAscii (stripSpaces s) = fst x @ snd x"
    and "fst x \<noteq> []" and "list_all isDigit (fst x)" and "list_all (\<lambda>c. \<not> isDigit c) (snd x)"
proof -
  from ordinalOf_shape [OF assms] obtain d l sp w where
    s: "s = d @ l @ sp @ w" and dne: "d \<noteq> []" and d: "list_all isDigit d"
    and l: "list_all isLetter l" and sp: "list_all isSpace sp"
    and w: "map lowerAscii w \<in> set ([] # modifiers)"
    and x: "x = (d, map lowerAscii l @ map lowerAscii w)" by blast
  from modifier_word [OF w] have wl: "list_all isLetter w" .
  show u: "list_all ordinalUnit s"
    using d l sp wl by (auto simp: s ordinalUnit_def list_all_iff)
  then show "list_all ordinalUnit (stripSpaces s)"
    by (auto simp: stripSpaces_def list_all_iff)
  have dn: "list_all (\<lambda>c. \<not> isSpace c) d" using d digit_facts by (auto simp: list_all_iff)
  have ln: "list_all (\<lambda>c. \<not> isSpace c) l" using l letter_facts by (auto simp: list_all_iff)
  have wn: "list_all (\<lambda>c. \<not> isSpace c) w" using wl letter_facts by (auto simp: list_all_iff)
  have st: "stripSpaces s = d @ l @ w"
    by (simp add: s stripSpaces_def filter_every [OF dn] filter_every [OF ln]
          filter_every [OF wn] filter_none [OF sp])
  have dd: "map lowerAscii d = d"
    using d by (auto simp: list_all_iff map_idI unat_chars word_unat_eq_iff intro!: map_idI)
  show "map lowerAscii (stripSpaces s) = fst x @ snd x" by (simp add: st x dd)
  show "fst x \<noteq> []" using dne by (simp add: x)
  show "list_all isDigit (fst x)" using d by (simp add: x)
  show "list_all (\<lambda>c. \<not> isDigit c) (snd x)"
    using l wl letter_facts by (auto simp: x list_all_iff)
qed

lemma normalizedNum_ordinalOf:
  assumes "ordinalOf s = Some x"
  shows "normalizedNum rx s = fst x @ snd x"
  using normalizedNum_ordinal [OF ordinalOf_units(1) [OF assms], of rx]
    ordinalOf_units(3) [OF assms]
  by (simp add: stripSpaces_def)

lemma normalizedNum_stripped:
  assumes "ordinalOf s = Some x"
  shows "normalizedNum rx (stripSpaces (trim s)) = normalizedNum rx s"
proof -
  have "normalizedNum rx (stripSpaces s) = map lowerAscii (stripSpaces (stripSpaces s))"
    using normalizedNum_ordinal [OF ordinalOf_units(2) [OF assms], of rx]
    by (simp add: stripSpaces_def)
  also have "stripSpaces (stripSpaces s) = stripSpaces s" by (simp add: stripSpaces_def)
  finally show ?thesis
    using normalizedNum_ordinalOf [OF assms, of rx] ordinalOf_units(3) [OF assms]
    by (simp add: stripSpaces_trim)
qed

lemma digits_then_rest:
  assumes "list_all isDigit d" "list_all (\<lambda>c. \<not> isDigit c) t"
  shows "takeWhile isDigit (d @ t) = d" "dropWhile isDigit (d @ t) = t"
proof -
  from assms(2) have t: "takeWhile isDigit t = []" "dropWhile isDigit t = t"
    by (cases t; simp)+
  from assms(1) show "takeWhile isDigit (d @ t) = d" "dropWhile isDigit (d @ t) = t"
    by (simp_all add: list_all_iff t)
qed

lemma ordinal_split:
  assumes "ordinalOf a = Some x" "ordinalOf b = Some y" "fst x @ snd x = fst y @ snd y"
  shows "x = y"
proof -
  from digits_then_rest [OF ordinalOf_units(5,6) [OF assms(1)]]
       digits_then_rest [OF ordinalOf_units(5,6) [OF assms(2)]] assms(3)
  have "fst x = fst y" "snd x = snd y" by simp_all
  then show ?thesis by (simp add: prod_eq_iff)
qed

lemma normalizedNum_plain:
  assumes "ordinalOf s = Some x" "list_all plain s"
  shows "normalizedNum rx s = s"
proof -
  from assms(2) have "list_all (\<lambda>c. \<not> isSpace c) s" by (simp add: plain_def list_all_iff)
  from filter_every [OF this] have f: "filter (\<lambda>c. \<not> isSpace c) s = s" .
  from assms(2) have "map lowerAscii s = s"
    by (auto simp: plain_def lowerAscii_def list_all_iff intro!: map_idI)
  with normalizedNum_ordinal [OF ordinalOf_units(1) [OF assms(1)], of rx] f
  show ?thesis by simp
qed

text \<open>
  C6. The reference key is a function of the matched ordinal, and it is injective on
  ordinals. For every string that the ordinal pattern matches, the key is \<open>art\<close> followed
  by the number and by the letters and the modifier in lower case, whatever the runtime's
  case tables and whether or not the code has already trimmed the match and deleted its
  white space; so the same ordinal always gets the same key. Two matched strings get the
  same key exactly when they write the same ordinal, and two different strings without
  white space or capital letters always get different keys.
\<close>

theorem provisionRef_injective:
  "ordinalOf a = Some x \<and> ordinalOf b = Some y \<longrightarrow>
     provisionRef rx a = js ''art'' @ fst x @ snd x
     \<and> provisionRef rx (stripSpaces (trim a)) = provisionRef rx a
     \<and> (provisionRef rx a = provisionRef rx b \<longleftrightarrow> x = y)
     \<and> (list_all plain a \<and> list_all plain b \<and> a \<noteq> b \<longrightarrow>
          provisionRef rx a \<noteq> provisionRef rx b)"
proof (intro impI, elim conjE)
  assume a: "ordinalOf a = Some x" and b: "ordinalOf b = Some y"
  have 1: "provisionRef rx a = js ''art'' @ fst x @ snd x"
    by (simp add: provisionRef_def normalizedNum_ordinalOf [OF a])
  have 2: "provisionRef rx (stripSpaces (trim a)) = provisionRef rx a"
    by (simp add: provisionRef_def normalizedNum_stripped [OF a])
  have 3: "provisionRef rx a = provisionRef rx b \<longleftrightarrow> x = y"
  proof
    assume "provisionRef rx a = provisionRef rx b"
    then have "fst x @ snd x = fst y @ snd y"
      by (simp add: provisionRef_def normalizedNum_ordinalOf [OF a]
            normalizedNum_ordinalOf [OF b])
    from ordinal_split [OF a b this] show "x = y" .
  next
    assume "x = y"
    then show "provisionRef rx a = provisionRef rx b"
      by (simp add: provisionRef_def normalizedNum_ordinalOf [OF a]
            normalizedNum_ordinalOf [OF b])
  qed
  have 4: "list_all plain a \<and> list_all plain b \<and> a \<noteq> b \<longrightarrow>
             provisionRef rx a \<noteq> provisionRef rx b"
    by (auto simp: provisionRef_def normalizedNum_plain [OF a] normalizedNum_plain [OF b])
  from 1 2 3 4
  show "provisionRef rx a = js ''art'' @ fst x @ snd x
     \<and> provisionRef rx (stripSpaces (trim a)) = provisionRef rx a
     \<and> (provisionRef rx a = provisionRef rx b \<longleftrightarrow> x = y)
     \<and> (list_all plain a \<and> list_all plain b \<and> a \<noteq> b \<longrightarrow>
          provisionRef rx a \<noteq> provisionRef rx b)" by blast
qed

lemmas ordinal_eval = ordinalOf_def js_def isDigit_def isLetter_def isSpace_def modifiers_def
  lowerAscii_def Let_def

theorem provisionRef_injective_witness:
  "ordinalOf (js ''3 bis'') = Some (js ''3'', js ''bis'')
   \<and> ordinalOf (js ''3 Ter'') = Some (js ''3'', js ''ter'')
   \<and> provisionRef scenario_engine (js ''3 bis'') = js ''art3bis''
   \<and> provisionRef scenario_engine (js ''3 Ter'') = js ''art3ter''
   \<and> provisionRef scenario_engine (js ''3 bis'') \<noteq> provisionRef scenario_engine (js ''3 Ter'')
   \<and> ordinalOf (js ''3bis'') = Some (js ''3'', js ''bis'')
   \<and> ordinalOf (js ''4'') = Some (js ''4'', [])
   \<and> list_all plain (js ''3bis'') \<and> list_all plain (js ''4'') \<and> js ''3bis'' \<noteq> js ''4''
   \<and> provisionRef scenario_engine (js ''3bis'') \<noteq> provisionRef scenario_engine (js ''4'')"
proof -
  have a: "ordinalOf (js ''3 bis'') = Some (js ''3'', js ''bis'')"
    by (simp add: ordinal_eval)
  have b: "ordinalOf (js ''3 Ter'') = Some (js ''3'', js ''ter'')"
    by (simp add: ordinal_eval)
  have c: "ordinalOf (js ''3bis'') = Some (js ''3'', js ''bis'')"
    by (simp add: ordinal_eval)
  have d: "ordinalOf (js ''4'') = Some (js ''4'', [])"
    by (simp add: ordinal_eval)
  have p: "list_all plain (js ''3bis'')" "list_all plain (js ''4'')" "js ''3bis'' \<noteq> js ''4''"
    by (simp_all add: plain_def isSpace_def js_def)
  have ne: "(js ''3'', js ''bis'') \<noteq> (js ''3'', js ''ter'')" by (simp add: js_def)
  from provisionRef_injective
         [of "js ''3 bis''" "(js ''3'', js ''bis'')" "js ''3 Ter''" "(js ''3'', js ''ter'')"
             scenario_engine] a b ne
  have k1: "provisionRef scenario_engine (js ''3 bis'')
              = js ''art'' @ fst (js ''3'', js ''bis'') @ snd (js ''3'', js ''bis'')"
    and k2: "provisionRef scenario_engine (js ''3 bis'') \<noteq> provisionRef scenario_engine (js ''3 Ter'')"
    by blast+
  from provisionRef_injective
         [of "js ''3 Ter''" "(js ''3'', js ''ter'')" "js ''3 bis''" "(js ''3'', js ''bis'')"
             scenario_engine] a b
  have k3: "provisionRef scenario_engine (js ''3 Ter'')
              = js ''art'' @ fst (js ''3'', js ''ter'') @ snd (js ''3'', js ''ter'')"
    by blast
  from provisionRef_injective
         [of "js ''3bis''" "(js ''3'', js ''bis'')" "js ''4''" "(js ''4'', [])" scenario_engine]
       c d p
  have k4: "provisionRef scenario_engine (js ''3bis'') \<noteq> provisionRef scenario_engine (js ''4'')"
    by blast
  from k1 have k1': "provisionRef scenario_engine (js ''3 bis'') = js ''art3bis''"
    by (simp add: js_def)
  from k3 have k3': "provisionRef scenario_engine (js ''3 Ter'') = js ''art3ter''"
    by (simp add: js_def)
  from a b c d p k1' k3' k2 k4 show ?thesis by simp
qed


subsection \<open>Which candidates become definitions\<close>

lemma lengthsAccepted_bounds:
  "lengthsAccepted (trim (fst m)) (trim (snd m)) \<longleftrightarrow>
     2 \<le> termLength m \<and> termLength m \<le> 99 \<and> 11 \<le> definitionLength m"
  by (auto simp: lengthsAccepted_def termLength_def definitionLength_def)

lemma pushLettered_eq:
  "pushLettered src defs m =
     (if 2 \<le> termLength m \<and> termLength m \<le> 99 \<and> 11 \<le> definitionLength m
      then defs @ [candidate src m] else defs)"
  using lengthsAccepted_bounds [of m] by (simp add: pushLettered_def Let_def candidate_def)

lemma pushUnlessDefined_eq:
  "pushUnlessDefined rx src defs m =
     (if 2 \<le> termLength m \<and> termLength m \<le> 99 \<and> 11 \<le> definitionLength m
         \<and> \<not> (\<exists>d \<in> set defs. sameTerm rx src m d)
      then defs @ [candidate src m] else defs)"
  using lengthsAccepted_bounds [of m]
  by (auto simp: pushUnlessDefined_def Let_def candidate_def alreadyDefined_def sameTerm_def
        list_ex_iff)

lemma sameTerm_candidate: "sameTerm rx src m (candidate src m)"
  by (simp add: sameTerm_def candidate_def mkDefinition_def)

text \<open>What a loop can add: only candidates within the bounds.\<close>

lemma foldl_added:
  assumes step: "\<And>defs m d. d \<in> set (f defs m) \<Longrightarrow>
              d \<in> set defs \<or> (d = candidate src m \<and> 2 \<le> termLength m \<and> termLength m \<le> 99
                                 \<and> 11 \<le> definitionLength m)"
  shows "d \<in> set (foldl f defs ms) \<Longrightarrow>
         d \<in> set defs \<or> (\<exists>m \<in> set ms. d = candidate src m \<and> 2 \<le> termLength m
                               \<and> termLength m \<le> 99 \<and> 11 \<le> definitionLength m)"
proof (induction ms arbitrary: defs)
  case Nil
  then show ?case by simp
next
  case (Cons m ms)
  from Cons.IH [of "f defs m"] Cons.prems
  have "d \<in> set (f defs m) \<or> (\<exists>k \<in> set ms. d = candidate src k \<and> 2 \<le> termLength k
          \<and> termLength k \<le> 99 \<and> 11 \<le> definitionLength k)"
    by simp
  with step [of d defs m] show ?case by auto
qed

lemma foldl_pushLettered_added:
  "d \<in> set (foldl (pushLettered src) defs ms) \<Longrightarrow>
   d \<in> set defs \<or> (\<exists>m \<in> set ms. d = candidate src m \<and> 2 \<le> termLength m
                         \<and> termLength m \<le> 99 \<and> 11 \<le> definitionLength m)"
  by (rule foldl_added [where f = "pushLettered src"])
     (auto simp: pushLettered_eq split: if_splits)

lemma foldl_pushUnlessDefined_added:
  "d \<in> set (foldl (pushUnlessDefined rx src) defs ms) \<Longrightarrow>
   d \<in> set defs \<or> (\<exists>m \<in> set ms. d = candidate src m \<and> 2 \<le> termLength m
                         \<and> termLength m \<le> 99 \<and> 11 \<le> definitionLength m)"
  by (rule foldl_added [where f = "pushUnlessDefined rx src"])
     (auto simp: pushUnlessDefined_eq split: if_splits)

text \<open>The loops only append.\<close>

lemma foldl_grows:
  assumes step: "\<And>defs m. set defs \<subseteq> set (f defs m)"
  shows "set defs \<subseteq> set (foldl f defs ms)"
proof (induction ms arbitrary: defs)
  case Nil
  then show ?case by simp
next
  case (Cons m ms)
  from step [of defs m] Cons.IH [of "f defs m"] show ?case by auto
qed

lemma foldl_pushLettered_grows: "set defs \<subseteq> set (foldl (pushLettered src) defs ms)"
  by (rule foldl_grows) (auto simp: pushLettered_eq)

lemma foldl_pushUnlessDefined_grows:
  "set defs \<subseteq> set (foldl (pushUnlessDefined rx src) defs ms)"
  by (rule foldl_grows) (auto simp: pushUnlessDefined_eq)

text \<open>What a round establishes stays true to the end of the loop.\<close>

lemma foldl_reaches:
  assumes grow: "\<And>defs k. set defs \<subseteq> set (f defs k)"
      and hit: "\<And>defs. \<exists>d \<in> set (f defs m). R d"
      and m: "m \<in> set ms"
  shows "\<exists>d \<in> set (foldl f defs ms). R d"
  using m
proof (induction ms arbitrary: defs)
  case Nil
  then show ?case by simp
next
  case (Cons k ks)
  show ?case
  proof (cases "m = k")
    case True
    from hit [of defs] obtain d where d: "d \<in> set (f defs m)" "R d" by blast
    from foldl_grows [of f "f defs m" ks, OF grow] d True show ?thesis by auto
  next
    case False
    with Cons.prems have "m \<in> set ks" by simp
    from Cons.IH [OF this, of "f defs k"] show ?thesis by simp
  qed
qed

lemma lettered_retained:
  assumes "m \<in> set ms" "2 \<le> termLength m" "termLength m \<le> 99" "11 \<le> definitionLength m"
  shows "candidate src m \<in> set (foldl (pushLettered src) defs ms)"
proof -
  have "\<exists>d \<in> set (foldl (pushLettered src) defs ms). d = candidate src m"
    by (rule foldl_reaches [where f = "pushLettered src"])
       (use assms in \<open>auto simp: pushLettered_eq\<close>)
  then show ?thesis by simp
qed

lemma deduplicated_retained:
  assumes "m \<in> set ms" "2 \<le> termLength m" "termLength m \<le> 99" "11 \<le> definitionLength m"
  shows "\<exists>d \<in> set (foldl (pushUnlessDefined rx src) defs ms). sameTerm rx src m d"
  by (rule foldl_reaches [where f = "pushUnlessDefined rx src"])
     (use assms in \<open>auto simp: pushUnlessDefined_eq sameTerm_candidate\<close>)


text \<open>The loops in closed form.\<close>

lemma foldl_pushLettered_filter:
  "foldl (pushLettered src) defs ms = defs @ map (candidate src) (filter withinBounds ms)"
  by (induction ms arbitrary: defs) (simp_all add: pushLettered_eq withinBounds_def)

lemma sameTerm_trans:
  "sameTerm rx src m d \<Longrightarrow> sameTerm rx src k (candidate src m) \<Longrightarrow> sameTerm rx src k d"
  by (simp add: sameTerm_def candidate_def mkDefinition_def)

lemma foldl_pushUnlessDefined_retained:
  assumes "\<And>k. (\<exists>d \<in> set defs. sameTerm rx src k d) \<longleftrightarrow>
              (\<exists>d \<in> set (present @ map (candidate src) (filter withinBounds before)).
                  sameTerm rx src k d)"
  shows "foldl (pushUnlessDefined rx src) defs ms
           = defs @ map (candidate src) (retainedCandidates rx src present before ms)"
  using assms
proof (induction ms arbitrary: defs before)
  case Nil
  then show ?case by simp
next
  case (Cons m ms)
  let ?seen = "present @ map (candidate src) (filter withinBounds before)"
  let ?keep = "withinBounds m \<and> \<not> list_ex (sameTerm rx src m) ?seen"
  have keep: "?keep \<longleftrightarrow> withinBounds m \<and> \<not> (\<exists>d \<in> set defs. sameTerm rx src m d)"
    using Cons.prems [of m] by (simp add: list_ex_iff)
  have step: "pushUnlessDefined rx src defs m = defs @ (if ?keep then [candidate src m] else [])"
    unfolding keep by (simp add: pushUnlessDefined_eq withinBounds_def)
  have inv: "(\<exists>d \<in> set (pushUnlessDefined rx src defs m). sameTerm rx src k d) \<longleftrightarrow>
             (\<exists>d \<in> set (present @ map (candidate src) (filter withinBounds (before @ [m]))).
                 sameTerm rx src k d)" for k
  proof (cases "withinBounds m")
    case False
    with step Cons.prems [of k] show ?thesis by simp
  next
    case True
    show ?thesis
    proof (cases "\<exists>d \<in> set defs. sameTerm rx src m d")
      case False
      with True keep step have "pushUnlessDefined rx src defs m = defs @ [candidate src m]"
        by simp
      with True Cons.prems [of k] show ?thesis by auto
    next
      case ex: True
      with keep step have same: "pushUnlessDefined rx src defs m = defs" by simp
      from ex obtain d where d: "d \<in> set defs" "sameTerm rx src m d" by blast
      have "sameTerm rx src k (candidate src m) \<Longrightarrow> \<exists>d \<in> set defs. sameTerm rx src k d"
        using sameTerm_trans [OF d(2)] d(1) by blast
      with True Cons.prems [of k] show ?thesis unfolding same by auto
    qed
  qed
  from Cons.IH [of "pushUnlessDefined rx src defs m" "before @ [m]", OF inv]
  show ?case by (simp add: step)
qed


lemma strip_short_text: "stripHtml short_text = short_text"
  by (subst stripHtml_text) (simp_all add: short_text_def js_def strip_eval)

lemma strip_quoted_text: "stripHtml quoted_text = quoted_text"
  by (subst stripHtml_text)
     (simp_all add: quoted_text_def scenario_definition_def js_def strip_eval)

lemma short_extract: "extractDefinitions scenario_engine short_text (js ''art1'') [] = []"
  by (simp add: extractDefinitions_def strip_short_text scenario_engine_def Let_def
        scenario_texts_distinct scenario_texts_distinct [symmetric] pushLettered_def
        lengthsAccepted_def)
     (simp add: trim_def isSpace_def js_def)

lemma quoted_extract:
  "extractDefinitions scenario_engine quoted_text (js ''art1'') [] = [quoted_dato]"
  by (simp add: extractDefinitions_def strip_quoted_text scenario_engine_def Let_def
        scenario_texts_distinct scenario_texts_distinct [symmetric] pushUnlessDefined_def
        lengthsAccepted_def alreadyDefined_def mkDefinition_def quoted_dato_def)
     (simp add: trim_def isSpace_def js_def scenario_definition_def toLowerCase_def
        lowerUnit_def)

text \<open>
  C5, as stated, fails: the lettered pattern yields a candidate whose term has 2 code units
  and whose definition has exactly 10, within the bounds the claim gives, and it is not
  retained.
\<close>

theorem extractDefinitions_rejects_length_ten:
  "letteredPattern scenario_engine (stripHtml short_text) = [(js ''ab'', js ''123456789.'')]
   \<and> termLength (js ''ab'', js ''123456789.'') = 2
   \<and> definitionLength (js ''ab'', js ''123456789.'') = 10
   \<and> extractDefinitions scenario_engine short_text (js ''art1'') [] = []"
proof -
  have "letteredPattern scenario_engine (stripHtml short_text) =
          [(js ''ab'', js ''123456789.'')]"
    by (simp add: strip_short_text scenario_engine_def scenario_texts_distinct
          scenario_texts_distinct [symmetric])
  moreover have "termLength (js ''ab'', js ''123456789.'') = 2"
    by (simp add: termLength_def trim_def isSpace_def js_def)
  moreover have "definitionLength (js ''ab'', js ''123456789.'') = 10"
    by (simp add: definitionLength_def trim_def isSpace_def js_def)
  ultimately show ?thesis using short_extract by simp
qed

text \<open>
  C5, amended: the definition must have at least 11 code units (the guard is
  \<open>definition.length > 10\<close>). Every definition that \<open>extractDefinitions\<close> adds is a
  candidate of one of the three patterns whose trimmed term has 2 to 99 code units and whose
  trimmed definition has at least 11. Conversely every such candidate of the lettered
  pattern is in the result, and for every such candidate of the quoted and the numbered
  pattern the result holds a definition with that term, up to case, for the same provision.
  Which one is told by the last part: the result is the definitions present at the call,
  then every lettered candidate within the bounds, then, in the order of the matches, the
  quoted and after them the numbered candidates within the bounds for which no definition
  with that term, up to case, for the same provision was already present at their turn.
\<close>

theorem extractDefinitions_candidates:
  "(\<forall>d \<in> set (extractDefinitions rx html src defs).
      d \<in> set defs \<or>
      (\<exists>m \<in> set (letteredPattern rx (stripHtml html) @ quotedPattern rx (stripHtml html)
                    @ numberedPattern rx (stripHtml html)).
         d = candidate src m \<and> 2 \<le> termLength m \<and> termLength m \<le> 99
         \<and> 11 \<le> definitionLength m))
   \<and> (\<forall>m \<in> set (letteredPattern rx (stripHtml html)).
        2 \<le> termLength m \<and> termLength m \<le> 99 \<and> 11 \<le> definitionLength m \<longrightarrow>
          candidate src m \<in> set (extractDefinitions rx html src defs))
   \<and> (\<forall>m \<in> set (quotedPattern rx (stripHtml html) @ numberedPattern rx (stripHtml html)).
        2 \<le> termLength m \<and> termLength m \<le> 99 \<and> 11 \<le> definitionLength m \<longrightarrow>
          (\<exists>d \<in> set (extractDefinitions rx html src defs). sameTerm rx src m d))
   \<and> extractDefinitions rx html src defs =
       (let present = defs @ map (candidate src)
                               (filter withinBounds (letteredPattern rx (stripHtml html)))
        in present @ map (candidate src)
             (retainedCandidates rx src present []
                (quotedPattern rx (stripHtml html) @ numberedPattern rx (stripHtml html))))"
proof -
  define L where "L = letteredPattern rx (stripHtml html)"
  define Q where "Q = quotedPattern rx (stripHtml html)"
  define N where "N = numberedPattern rx (stripHtml html)"
  define d1 where "d1 = foldl (pushLettered src) defs L"
  define d2 where "d2 = foldl (pushUnlessDefined rx src) d1 Q"
  define d3 where "d3 = foldl (pushUnlessDefined rx src) d2 N"
  have out: "extractDefinitions rx html src defs = d3"
    by (simp add: extractDefinitions_def Let_def d3_def d2_def d1_def L_def Q_def N_def)
  have g2: "set d1 \<subseteq> set d2" unfolding d2_def by (rule foldl_pushUnlessDefined_grows)
  have g3: "set d2 \<subseteq> set d3" unfolding d3_def by (rule foldl_pushUnlessDefined_grows)
  have a: "d \<in> set defs \<or>
           (\<exists>m \<in> set (L @ Q @ N). d = candidate src m \<and> 2 \<le> termLength m
              \<and> termLength m \<le> 99 \<and> 11 \<le> definitionLength m)"
    if "d \<in> set d3" for d
  proof -
    from that foldl_pushUnlessDefined_added [of d rx src d2 N]
    consider "d \<in> set d2" | "\<exists>m \<in> set N. d = candidate src m \<and> 2 \<le> termLength m
              \<and> termLength m \<le> 99 \<and> 11 \<le> definitionLength m"
      unfolding d3_def by blast
    then show ?thesis
    proof cases
      case 1
      with foldl_pushUnlessDefined_added [of d rx src d1 Q]
      consider "d \<in> set d1" | "\<exists>m \<in> set Q. d = candidate src m \<and> 2 \<le> termLength m
              \<and> termLength m \<le> 99 \<and> 11 \<le> definitionLength m"
        unfolding d2_def by blast
      then show ?thesis
      proof cases
        case 1
        with foldl_pushLettered_added [of d src defs L] show ?thesis
          unfolding d1_def by auto
      next
        case 2
        then show ?thesis by auto
      qed
    next
      case 2
      then show ?thesis by auto
    qed
  qed
  have b: "candidate src m \<in> set d3"
    if "m \<in> set L" "2 \<le> termLength m" "termLength m \<le> 99" "11 \<le> definitionLength m" for m
  proof -
    from lettered_retained [OF that] have "candidate src m \<in> set d1" by (simp add: d1_def)
    with g2 g3 show ?thesis by blast
  qed
  have c: "\<exists>d \<in> set d3. sameTerm rx src m d"
    if "m \<in> set (Q @ N)" "2 \<le> termLength m" "termLength m \<le> 99" "11 \<le> definitionLength m"
    for m
  proof (cases "m \<in> set N")
    case True
    from deduplicated_retained [OF True that(2-4)] show ?thesis by (simp add: d3_def)
  next
    case False
    with that(1) have "m \<in> set Q" by simp
    from deduplicated_retained [OF this that(2-4)]
    have "\<exists>d \<in> set d2. sameTerm rx src m d" by (simp add: d2_def)
    with g3 show ?thesis by blast
  qed
  have d23: "d3 = foldl (pushUnlessDefined rx src) d1 (Q @ N)"
    by (simp add: d3_def d2_def)
  have e: "d3 = (let present = defs @ map (candidate src) (filter withinBounds L)
                 in present @ map (candidate src)
                      (retainedCandidates rx src present [] (Q @ N)))"
    unfolding d23 Let_def
    by (subst foldl_pushUnlessDefined_retained
          [where present = "defs @ map (candidate src) (filter withinBounds L)"
             and before = "[]"])
       (simp_all add: d1_def foldl_pushLettered_filter)
  from a b c have abc:
    "(\<forall>d \<in> set d3. d \<in> set defs \<or>
        (\<exists>m \<in> set (L @ Q @ N). d = candidate src m \<and> 2 \<le> termLength m
           \<and> termLength m \<le> 99 \<and> 11 \<le> definitionLength m))
     \<and> (\<forall>m \<in> set L. 2 \<le> termLength m \<and> termLength m \<le> 99 \<and> 11 \<le> definitionLength m \<longrightarrow>
            candidate src m \<in> set d3)
     \<and> (\<forall>m \<in> set (Q @ N).
            2 \<le> termLength m \<and> termLength m \<le> 99 \<and> 11 \<le> definitionLength m \<longrightarrow>
              (\<exists>d \<in> set d3. sameTerm rx src m d))"
    by blast
  show ?thesis
    unfolding out L_def [symmetric] Q_def [symmetric] N_def [symmetric]
    using abc e by blast
qed

theorem extractDefinitions_candidates_witness:
  "(js ''Dato'', scenario_definition) \<in> set (letteredPattern scenario_engine (stripHtml scenario_html))
   \<and> termLength (js ''Dato'', scenario_definition) = 4
   \<and> definitionLength (js ''Dato'', scenario_definition) = 22
   \<and> candidate (js ''art3bis'') (js ''Dato'', scenario_definition)
        \<in> set (extractDefinitions scenario_engine scenario_html (js ''art3bis'') [])
   \<and> (js ''dato'', js ''otra cosa distinta.'')
        \<in> set (quotedPattern scenario_engine (stripHtml quoted_text)
                 @ numberedPattern scenario_engine (stripHtml quoted_text))
   \<and> termLength (js ''dato'', js ''otra cosa distinta.'') = 4
   \<and> definitionLength (js ''dato'', js ''otra cosa distinta.'') = 19
   \<and> extractDefinitions scenario_engine quoted_text (js ''art1'') [] = [quoted_dato]
   \<and> sameTerm scenario_engine (js ''art1'') (js ''dato'', js ''otra cosa distinta.'') quoted_dato
   \<and> retainedCandidates scenario_engine (js ''art1'') [] []
         [(js ''Dato'', scenario_definition), (js ''dato'', js ''otra cosa distinta.'')]
       = [(js ''Dato'', scenario_definition)]
   \<and> extractDefinitions scenario_engine quoted_text (js ''art1'') []
       = [candidate (js ''art1'') (js ''Dato'', scenario_definition)]"
proof -
  have l: "(js ''Dato'', scenario_definition)
             \<in> set (letteredPattern scenario_engine (stripHtml scenario_html))"
    by (simp add: strip_scenario_html scenario_engine_def)
  have lb: "termLength (js ''Dato'', scenario_definition) = 4"
           "definitionLength (js ''Dato'', scenario_definition) = 22"
    by (simp_all add: termLength_def definitionLength_def trim_def isSpace_def js_def
          scenario_definition_def)
  have q: "(js ''dato'', js ''otra cosa distinta.'')
             \<in> set (quotedPattern scenario_engine (stripHtml quoted_text)
                      @ numberedPattern scenario_engine (stripHtml quoted_text))"
    by (simp add: strip_quoted_text scenario_engine_def)
  have qb: "termLength (js ''dato'', js ''otra cosa distinta.'') = 4"
           "definitionLength (js ''dato'', js ''otra cosa distinta.'') = 19"
    by (simp_all add: termLength_def definitionLength_def trim_def isSpace_def js_def)
  have lw: "2 \<le> termLength (js ''Dato'', scenario_definition)
            \<and> termLength (js ''Dato'', scenario_definition) \<le> 99
            \<and> 11 \<le> definitionLength (js ''Dato'', scenario_definition)"
    by (simp add: lb)
  have qw: "2 \<le> termLength (js ''dato'', js ''otra cosa distinta.'')
            \<and> termLength (js ''dato'', js ''otra cosa distinta.'') \<le> 99
            \<and> 11 \<le> definitionLength (js ''dato'', js ''otra cosa distinta.'')"
    by (simp add: qb)
  from extractDefinitions_candidates [of scenario_engine scenario_html "js ''art3bis''" "[]"] l lw
  have r1: "candidate (js ''art3bis'') (js ''Dato'', scenario_definition)
              \<in> set (extractDefinitions scenario_engine scenario_html (js ''art3bis'') [])"
    by blast
  from extractDefinitions_candidates [of scenario_engine quoted_text "js ''art1''" "[]"] q qw
  have "\<exists>d \<in> set (extractDefinitions scenario_engine quoted_text (js ''art1'') []).
          sameTerm scenario_engine (js ''art1'') (js ''dato'', js ''otra cosa distinta.'') d"
    by blast
  then have r2: "sameTerm scenario_engine (js ''art1'') (js ''dato'', js ''otra cosa distinta.'') quoted_dato"
    by (simp add: quoted_extract)
  have qd: "termLength (js ''Dato'', scenario_definition) = 4"
           "definitionLength (js ''Dato'', scenario_definition) = 22"
    by (rule lb)+
  have wb: "withinBounds (js ''Dato'', scenario_definition)"
           "withinBounds (js ''dato'', js ''otra cosa distinta.'')"
    by (simp_all add: withinBounds_def qd qb)
  have same: "sameTerm scenario_engine (js ''art1'') (js ''dato'', js ''otra cosa distinta.'')
                (candidate (js ''art1'') (js ''Dato'', scenario_definition))"
    by (simp add: sameTerm_def candidate_def mkDefinition_def toLowerCase_def trim_def
          isSpace_def lowerUnit_def js_def)
  have r3: "retainedCandidates scenario_engine (js ''art1'') [] []
              [(js ''Dato'', scenario_definition), (js ''dato'', js ''otra cosa distinta.'')]
            = [(js ''Dato'', scenario_definition)]"
    by (simp add: wb same)
  from extractDefinitions_candidates [of scenario_engine quoted_text "js ''art1''" "[]"]
  have "extractDefinitions scenario_engine quoted_text (js ''art1'') [] =
          (let present = [] @ map (candidate (js ''art1''))
                  (filter withinBounds (letteredPattern scenario_engine (stripHtml quoted_text)))
           in present @ map (candidate (js ''art1''))
                (retainedCandidates scenario_engine (js ''art1'') present []
                   (quotedPattern scenario_engine (stripHtml quoted_text)
                    @ numberedPattern scenario_engine (stripHtml quoted_text))))"
    by blast
  moreover have "letteredPattern scenario_engine (stripHtml quoted_text) = []"
    "quotedPattern scenario_engine (stripHtml quoted_text)
       = [(js ''Dato'', scenario_definition), (js ''dato'', js ''otra cosa distinta.'')]"
    "numberedPattern scenario_engine (stripHtml quoted_text) = []"
    by (simp_all add: strip_quoted_text scenario_engine_def scenario_texts_distinct
          scenario_texts_distinct [symmetric])
  ultimately
  have r4: "extractDefinitions scenario_engine quoted_text (js ''art1'') []
              = [candidate (js ''art1'') (js ''Dato'', scenario_definition)]"
    by (simp only: Let_def r3 append_Nil append_Nil2 list.map filter.simps)
  from l lb q qb r1 r2 r3 r4 quoted_extract show ?thesis by simp
qed


section \<open>Properties of the fetcher\<close>

lemma issue_requests: "length (requests (snd (issue srv u st))) = Suc (length (requests st))"
  by (simp add: issue_def Let_def)

lemma sleep_requests: "requests (sleep ms st) = requests st"
  by (simp add: sleep_def)

lemma rateLimit_requests: "requests (rateLimit st) = requests st"
  by (simp add: rateLimit_def Let_def sleep_def)

lemma issue_outcome: "fst (issue srv u st) = outcome (srv (length (requests st)) u)"
  by (simp add: issue_def Let_def)

text \<open>
  From any round of the loop on: when all the exchanges left are answered 429 or 5xx, the
  loop runs to its last round and returns that round's response.
\<close>

lemma allRetryable_iff:
  "allRetryable srv u n k \<longleftrightarrow>
     (\<forall>j \<le> k. \<exists>response. outcome (srv (n + j) u) = Responded response
                        \<and> retryable (http_status response))"
proof -
  have "retryableExchange ex \<longleftrightarrow>
          (\<exists>response. outcome ex = Responded response \<and> retryable (http_status response))"
    for ex
    by (cases "outcome ex") (simp_all add: retryableExchange_def)
  then have "allRetryable srv u n k \<longleftrightarrow>
               (\<forall>j \<in> set [0..<Suc k]. \<exists>response.
                  outcome (srv (n + j) u) = Responded response
                  \<and> retryable (http_status response))"
    by (simp only: allRetryable_def list_all_iff)
  also have "\<dots> \<longleftrightarrow>
               (\<forall>j \<le> k. \<exists>response. outcome (srv (n + j) u) = Responded response
                  \<and> retryable (http_status response))"
    by (auto simp del: upt_Suc simp: less_Suc_eq_le)
  finally show ?thesis .
qed

lemma attempts_all_retryable:
  "0 \<le> attempt \<Longrightarrow> attempt \<le> maxRetries \<Longrightarrow>
   allRetryable srv u (length (requests st)) (nat (maxRetries - attempt)) \<Longrightarrow>
   \<exists>response.
     outcome (srv (length (requests st) + nat (maxRetries - attempt)) u) = Responded response
     \<and> fst (attempts srv u maxRetries attempt st) = Inr (toFetchResult response)
     \<and> length (requests (snd (attempts srv u maxRetries attempt st)))
         = length (requests st) + nat (maxRetries - attempt) + 1"
proof (induction srv u maxRetries attempt st rule: attempts.induct)
  case (1 srv u maxRetries attempt st)
  let ?n = "length (requests st)"
  from "1.prems"(3) obtain r0 where r0: "outcome (srv ?n u) = Responded r0"
    "retryable (http_status r0)"
    unfolding allRetryable_iff by force
  show ?case
  proof (cases "attempt < maxRetries")
    case False
    with "1.prems" have eq: "attempt = maxRetries" by simp
    show ?thesis
      by (subst (1 2) attempts.simps) (simp add: eq issue_outcome r0 issue_requests)
  next
    case True
    let ?st' = "sleep (2 ^ nat (attempt + 1) * 1000) (snd (issue srv u st))"
    have len: "length (requests ?st') = Suc ?n"
      by (simp add: sleep_requests issue_requests)
    have shift: "nat (maxRetries - attempt) = Suc (nat (maxRetries - (attempt + 1)))"
      using True "1.prems" by simp
    have "allRetryable srv u (Suc ?n) (nat (maxRetries - (attempt + 1)))"
      using "1.prems"(3) unfolding allRetryable_iff shift
      by (metis Suc_le_mono add_Suc_right add_Suc)
    with len
    have ar: "allRetryable srv u (length (requests ?st')) (nat (maxRetries - (attempt + 1)))"
      by simp
    have le: "attempt \<le> maxRetries" using True by simp
    have iss: "fst (issue srv u st) = Responded r0" by (simp add: issue_outcome r0)
    have p1: "0 \<le> attempt + 1" using "1.prems"(1) by simp
    have p2: "attempt + 1 \<le> maxRetries" using True by simp
    from "1.IH" [OF le iss r0(2) True p1 p2 ar]
    obtain response where
      "outcome (srv (length (requests ?st') + nat (maxRetries - (attempt + 1))) u)
         = Responded response"
      "fst (attempts srv u maxRetries (attempt + 1) ?st') = Inr (toFetchResult response)"
      "length (requests (snd (attempts srv u maxRetries (attempt + 1) ?st')))
         = length (requests ?st') + nat (maxRetries - (attempt + 1)) + 1"
      by blast
    then show ?thesis
      by (subst (1 2) attempts.simps) (simp add: True le issue_outcome r0 len shift)
  qed
qed

text \<open>The throw behind the loop is reached only when the loop has no round at all.\<close>

lemma fetchWithRateLimit_no_round:
  "maxRetries < 0 \<Longrightarrow>
   fetchWithRateLimit srv u maxRetries st = (Inl (FailedToFetch u maxRetries), rateLimit st)"
  by (simp add: fetchWithRateLimit_def attempts.simps)

text \<open>
  What the throttle does give: when \<open>rateLimit\<close> returns, at least the minimum delay has
  passed since the last stamp, and the stamp is the time of its return, which is when the
  first request of the call starts.
\<close>

lemma rateLimit_waits:
  "lastRequestTime st + MIN_DELAY_MS \<le> clock (rateLimit st)
   \<and> lastRequestTime (rateLimit st) = clock (rateLimit st)
   \<and> clock st \<le> clock (rateLimit st)"
  by (simp add: rateLimit_def Let_def sleep_def MIN_DELAY_MS_def)

lemmas fetch_eval = fetchWithRateLimit_def rateLimit_def Let_def MIN_DELAY_MS_def sleep_def
  attempts.simps issue_def retryable_def

text \<open>
  When each of the \<open>maxRetries + 1\<close> requests of a call is answered 429 or 5xx, the call
  returns the last response as a \<open>FetchResult\<close>: on the last round the test
  \<open>attempt < maxRetries\<close> fails and control falls through to the \<open>return\<close>. The
  \<open>throw\<close> behind the loop is reached only when no round is made.
\<close>

lemma fetchWithRateLimit_all_retryable:
  assumes "0 \<le> maxRetries"
      and "allRetryable srv u (length (requests st)) (nat maxRetries)"
  shows "\<exists>response.
           outcome (srv (length (requests st) + nat maxRetries) u) = Responded response
           \<and> retryable (http_status response)
           \<and> fst (fetchWithRateLimit srv u maxRetries st) = Inr (toFetchResult response)
           \<and> FetchResult.status (toFetchResult response) = http_status response
           \<and> length (requests (snd (fetchWithRateLimit srv u maxRetries st)))
               = length (requests st) + nat maxRetries + 1"
proof -
  from attempts_all_retryable [of 0 maxRetries srv u "rateLimit st"] assms
  obtain response where r:
    "outcome (srv (length (requests st) + nat maxRetries) u) = Responded response"
    "fst (fetchWithRateLimit srv u maxRetries st) = Inr (toFetchResult response)"
    "length (requests (snd (fetchWithRateLimit srv u maxRetries st)))
       = length (requests st) + nat maxRetries + 1"
    by (auto simp: fetchWithRateLimit_def rateLimit_requests)
  from assms(2) r(1) have "retryable (http_status response)"
    unfolding allRetryable_iff by force
  with r show ?thesis by (auto simp: toFetchResult_def)
qed

text \<open>
  C1 does not hold of the code, which misses its own exhaustion path. Against a server that
  answers 503 to every request, the call with the default of three retries issues four
  requests, as the claim says, and then returns the last response as a \<open>FetchResult\<close>
  with status 503; it does not fail. The statement
  \<open>throw new Error('Failed to fetch ... after N retries')\<close> that follows the loop is never
  reached after a request, because the \<open>continue\<close> stands inside
  \<open>if (attempt < maxRetries)\<close>.
\<close>

theorem fetchWithRateLimit_returns_503:
  "fst (fetchWithRateLimit always_503 (js ''https://www.boe.es/a'') 3 fetcher0)
     = Inr (toFetchResult unavailable)
   \<and> FetchResult.status (toFetchResult unavailable) = 503
   \<and> fst (fetchWithRateLimit always_503 (js ''https://www.boe.es/a'') 3 fetcher0)
       \<noteq> Inl (FailedToFetch (js ''https://www.boe.es/a'') 3)
   \<and> length (requests (snd (fetchWithRateLimit always_503 (js ''https://www.boe.es/a'') 3
                               fetcher0))) = 4"
  by (simp add: fetch_eval fetcher0_def always_503_def unavailable_def toFetchResult_def)

text \<open>
  C8 fails across calls once a call has retried. The time stamp of the throttle is taken
  before the first request of a call only. Here the first call is answered 503 and then 200;
  its second request starts at 1002100. The next call finds the stamp 2200 ms old, does not
  wait, and starts its request at 1002200, 100 ms after the previous one.
\<close>

theorem fetchWithRateLimit_stale_stamp:
  "requests (snd (fetchWithRateLimit recovers_after_one (js ''https://www.boe.es/b'') 3
      (snd (fetchWithRateLimit recovers_after_one (js ''https://www.boe.es/a'') 3 fetcher0))))
     = [(1000000, js ''https://www.boe.es/a''), (1002100, js ''https://www.boe.es/a''),
        (1002200, js ''https://www.boe.es/b'')]
   \<and> (1002200 :: int) - 1002100 < MIN_DELAY_MS"
  by (simp add: fetch_eval fetcher0_def recovers_after_one_def unavailable_def page_def)

section \<open>Properties of the orchestrator\<close>

lemma foldl_provision_count:
  "list_all (\<lambda>l. isNumber (provision_count l)) ls \<Longrightarrow>
   foldl (\<lambda>total l. jsPlus h total (provision_count l)) (JNum a) ls
     = JNum (a + sum_list (map (\<lambda>l. numberOf (provision_count l)) ls))"
proof (induction ls arbitrary: a)
  case Nil
  then show ?case by simp
next
  case (Cons l ls)
  from Cons.prems obtain n where n: "provision_count l = JNum n"
    by (cases "provision_count l") simp_all
  from Cons.prems have "list_all (\<lambda>l. isNumber (provision_count l)) ls" by simp
  from Cons.IH [OF this, of "a + n"] show ?case by (simp add: n jsPlus_def add.assoc)
qed

lemma recalculate_consistent: "summaryConsistent (recalculate h c)"
  by (simp add: summaryConsistent_def recalculate_def foldl_provision_count)

lemma recalculate_laws: "laws (recalculate h c) = laws c"
  by (simp add: recalculate_def)

subsection \<open>The census map\<close>





subsection \<open>The census map stays valid during a run\<close>



lemma map_update_same:
  assumes "f y = f (xs ! i)"
  shows "map f (xs[i := y]) = map f xs"
proof (cases "i < length xs")
  case True
  with assms show ?thesis by (simp add: map_update list_update_same_conv)
next
  case False
  then have "length xs \<le> i" by arith
  then have "xs[i := y] = xs" by (rule list_update_beyond)
  then show ?thesis by (simp only:)
qed

lemma updateEntry_ids:
  assumes "\<And>e. CensusEntry.ident (f e) = CensusEntry.ident e"
  shows "map CensusEntry.ident (laws (updateEntry cmap key f c)) = map CensusEntry.ident (laws c)"
  by (cases "cmap key") (simp_all add: updateEntry_def map_update_same assms)

lemma markIngested_ident: "CensusEntry.ident (markIngested n date e) = CensusEntry.ident e"
  by (simp add: markIngested_def)

lemma markSkipped_ident: "CensusEntry.ident (markSkipped n date e) = CensusEntry.ident e"
  by (simp add: markSkipped_def)

lemma saveCensus_ids: "laws (census (saveCensus h st)) = laws (census st)"
  by (simp add: saveCensus_def recalculate_laws)

lemma periodicSave_ids: "laws (census (periodicSave h opts st)) = laws (census st)"
  by (simp add: periodicSave_def saveCensus_ids)

lemma skipExisting_ids:
  "map CensusEntry.ident (laws (census (skipExisting h cmap act seed st)))
     = map CensusEntry.ident (laws (census st))"
proof (cases "Option.bind (JSON_parse h seed) provisionsLength")
  case None
  then show ?thesis by (simp add: skipExisting_def pushResult_def)
next
  case (Some v)
  then show ?thesis
    by (simp add: skipExisting_def pushResult_def updateEntry_ids markSkipped_ident)
qed

lemma fallbackFor_ids:
  "map CensusEntry.ident (laws (census (fallbackFor h cmap act code st)))
     = map CensusEntry.ident (laws (census st))"
  by (simp add: fallbackFor_def pushResult_def writeFallback_def updateEntry_ids
        markIngested_ident)

lemma failedFor_ids:
  "map CensusEntry.ident (laws (census (failedFor h cmap act err st)))
     = map CensusEntry.ident (laws (census st))"
  by (simp add: failedFor_def pushResult_def writeFallback_def updateEntry_ids
        markIngested_ident)

lemma parseAndStore_ids:
  "map CensusEntry.ident (laws (census (parseAndStore h cmap act html st)))
     = map CensusEntry.ident (laws (census st))"
  by (simp add: parseAndStore_def Let_def pushResult_def updateEntry_ids markIngested_ident)

lemma processEntry_ids:
  "map CensusEntry.ident (laws (census (processEntry h opts cmap st entry)))
     = map CensusEntry.ident (laws (census st))"
  unfolding processEntry_def Let_def
  by (simp add: skipExisting_ids fallbackFor_ids failedFor_ids parseAndStore_ids
        periodicSave_ids split: prod.split sum.split)

lemma ingestLoop_ids:
  "map CensusEntry.ident (laws (census (ingestLoop h opts cmap pending st)))
     = map CensusEntry.ident (laws (census st))"
  by (induction pending arbitrary: st) (simp_all add: processEntry_ids)

text \<open>
  At the end of a run that had something to ingest, the census document on disk holds the
  entries of the final state with a summary that agrees with them.
\<close>

lemma main_final_census:
  assumes "main h opts d f = Some st"
      and "disk_census d = Some c"
      and "applyLimit (limit opts) (pendingLaws opts c) \<noteq> []"
  shows "census_file st = Some (census st) \<and> summaryConsistent (census st)"
  using assms
  by (auto simp: main_def Let_def saveCensus_def recalculate_consistent)

subsection \<open>A response that is not 200\<close>

lemma processEntry_non200:
  assumes "force opts \<or> seed_files st (CensusEntry.ident entry) = None"
      and "\<not> (source_files st (CensusEntry.ident entry) \<noteq> None \<and> skipFetch opts)"
      and "fetchWithRateLimit (remote h) (ActIndexEntry.url (censusEntryToAct entry)) 3 (net st)
             = (Inr fetchResult, net')"
      and "FetchResult.status fetchResult \<noteq> 200"
  shows "processEntry h opts cmap st entry =
           fallbackFor h cmap (censusEntryToAct entry) (FetchResult.status fetchResult)
             (st\<lparr> processed := processed st + 1, net := net' \<rparr>)"
proof -
  have key: "ActIndexEntry.ident (censusEntryToAct entry) = CensusEntry.ident entry"
    by (simp add: censusEntryToAct_def)
  from assms show ?thesis
    unfolding processEntry_def Let_def key by auto
qed


lemma fetch_404:
  "fetchWithRateLimit always_404 (js ''https://www.boe.es/a'') 3 fetcher0
     = (Inr (toFetchResult missing), net1)"
  by (simp add: fetch_eval fetcher0_def always_404_def missing_def net1_def)



subsection \<open>A whole run\<close>

text \<open>
  The run over the census of one law, against the server that answers 404: the law ends up
  ingested with no provisions, and the census document on disk says so.
\<close>

lemma main_run_404:
  "\<exists>st. main host1 options1 disk1 fetcher0 = Some st
        \<and> laws (census st)
            = [entry1\<lparr> ingested := True, provision_count := JNum 0,
                       ingestion_date := Some (js ''2026-01-15'') \<rparr>]
        \<and> census_file st = Some (census st)
        \<and> total_ingested (summary (census st)) = 1
        \<and> total_provisions (summary (census st)) = JNum 0
        \<and> length (requests (net st)) = 1"
proof -
  have p: "applyLimit (limit options1) (pendingLaws options1 census1) = [entry1]"
    by (simp add: applyLimit_def pendingLaws_def options1_def census1_def entry1_def)
  have u: "ActIndexEntry.url (censusEntryToAct entry1) = js ''https://www.boe.es/a''"
    by (simp add: censusEntryToAct_def entry1_def orElse_def js_def)
  have f: "fetchWithRateLimit (remote host1) (ActIndexEntry.url (censusEntryToAct entry1)) 3
             (net state1) = (Inr (toFetchResult missing), net1)"
    by (simp add: u host1_def state1_def startState_def fetch_404)
  have n: "FetchResult.status (toFetchResult missing) \<noteq> 200"
    by (simp add: toFetchResult_def missing_def)
  have s: "force options1 \<or> seed_files state1 (CensusEntry.ident entry1) = None"
    by (simp add: state1_def startState_def disk1_def)
  have c: "\<not> (source_files state1 (CensusEntry.ident entry1) \<noteq> None \<and> skipFetch options1)"
    by (simp add: options1_def)
  have m: "censusMap [entry1] (CensusEntry.ident entry1) = Some 0"
    by (simp add: censusMap_def)
  have key: "ActIndexEntry.ident (censusEntryToAct entry1) = CensusEntry.ident entry1"
    by (simp add: censusEntryToAct_def)
  define st where "st = processEntry host1 options1 (censusMap [entry1]) state1 entry1"
  have step: "st = fallbackFor host1 (censusMap [entry1]) (censusEntryToAct entry1)
                     (FetchResult.status (toFetchResult missing))
                     (state1\<lparr> processed := processed state1 + 1, net := net1 \<rparr>)"
    unfolding st_def by (rule processEntry_non200 [OF s c f n])
  have l: "laws (census st)
             = [entry1\<lparr> ingested := True, provision_count := JNum 0,
                        ingestion_date := Some (js ''2026-01-15'') \<rparr>]"
    by (simp add: step fallbackFor_def pushResult_def writeFallback_def updateEntry_def key m
          markIngested_def today_def host1_def state1_def startState_def census1_def)
  have r: "net st = net1"
    by (simp add: step fallbackFor_def pushResult_def writeFallback_def)
  have dc: "disk_census disk1 = Some census1" by (simp add: disk1_def)
  have lc: "laws census1 = [entry1]" by (simp add: census1_def)
  have run: "main host1 options1 disk1 fetcher0 = Some (saveCensus host1 st)"
    by (simp add: main_def dc p Let_def st_def state1_def lc)
  have "laws (census (saveCensus host1 st)) = laws (census st)"
    by (rule saveCensus_ids)
  moreover have "census_file (saveCensus host1 st) = Some (census (saveCensus host1 st))"
    by (simp add: saveCensus_def)
  moreover have "summaryConsistent (census (saveCensus host1 st))"
    by (simp add: saveCensus_def recalculate_consistent)
  moreover have "net (saveCensus host1 st) = net1"
    by (simp add: saveCensus_def r)
  ultimately show ?thesis
    using run l by (simp add: summaryConsistent_def net1_def entry1_def)
qed

text \<open>
  The same run against the server that answers 503 to every request: after the four
  requests the law is tallied as a fallback with status 503, not as failed.
\<close>

lemma fetch_503:
  "\<exists>net'. fetchWithRateLimit always_503 (js ''https://www.boe.es/a'') 3 fetcher0
            = (Inr (toFetchResult unavailable), net')
          \<and> length (requests net') = 4"
  by (simp add: fetch_eval fetcher0_def always_503_def unavailable_def toFetchResult_def)

lemma processEntry_after_retries:
  "results (processEntry host_503 options1 (censusMap [entry1]) state1 entry1)
     = [\<lparr> result_id = js ''BOE-A-2018-16673'', result_provisions = JNum 0,
          result_definitions = 0, result_status = Fallback,
          result_error = Some (HttpStatus 503) \<rparr>]
   \<and> fallbacks (processEntry host_503 options1 (censusMap [entry1]) state1 entry1) = 1
   \<and> failed (processEntry host_503 options1 (censusMap [entry1]) state1 entry1) = 0
   \<and> length (requests (net (processEntry host_503 options1 (censusMap [entry1]) state1
                                 entry1))) = 4"
proof -
  from fetch_503 obtain net' where f0:
    "fetchWithRateLimit always_503 (js ''https://www.boe.es/a'') 3 fetcher0
       = (Inr (toFetchResult unavailable), net')" and four: "length (requests net') = 4"
    by blast
  have u: "ActIndexEntry.url (censusEntryToAct entry1) = js ''https://www.boe.es/a''"
    by (simp add: censusEntryToAct_def entry1_def orElse_def js_def)
  have f: "fetchWithRateLimit (remote host_503) (ActIndexEntry.url (censusEntryToAct entry1)) 3
             (net state1) = (Inr (toFetchResult unavailable), net')"
    by (simp add: u host_503_def state1_def startState_def f0)
  have n: "FetchResult.status (toFetchResult unavailable) \<noteq> 200"
    "FetchResult.status (toFetchResult unavailable) = 503"
    by (simp_all add: toFetchResult_def unavailable_def)
  have s: "force options1 \<or> seed_files state1 (CensusEntry.ident entry1) = None"
    by (simp add: state1_def startState_def disk1_def)
  have c: "\<not> (source_files state1 (CensusEntry.ident entry1) \<noteq> None \<and> skipFetch options1)"
    by (simp add: options1_def)
  have key: "ActIndexEntry.ident (censusEntryToAct entry1) = js ''BOE-A-2018-16673''"
    by (simp add: censusEntryToAct_def entry1_def)
  have step: "processEntry host_503 options1 (censusMap [entry1]) state1 entry1
                = fallbackFor host_503 (censusMap [entry1]) (censusEntryToAct entry1)
                    (FetchResult.status (toFetchResult unavailable))
                    (state1\<lparr> processed := processed state1 + 1, net := net' \<rparr>)"
    by (rule processEntry_non200 [OF s c f n(1)])
  show ?thesis
    unfolding step
    by (simp add: fallbackFor_def pushResult_def writeFallback_def key n(2) four)
       (simp add: state1_def startState_def)
qed

subsection \<open>When the census is saved\<close>








text \<open>
  A round that ends in \<open>continue\<close> does not come to the periodic save. With a census saved
  after every law and the server that answers 404, the first round leaves on disk the
  document read at the start, while the entry in memory is already marked.
\<close>

lemma fallback_round_not_saved:
  "processed (processEntry host1 options_every (censusMap [entry1]) state1 entry1) = 1
   \<and> int 1 mod batchSize options_every = 0
   \<and> census_file (processEntry host1 options_every (censusMap [entry1]) state1 entry1)
       = Some census1
   \<and> laws (census (processEntry host1 options_every (censusMap [entry1]) state1 entry1))
       = [entry1\<lparr> ingested := True, provision_count := JNum 0,
                  ingestion_date := Some (js ''2026-01-15'') \<rparr>]"
proof -
  have u: "ActIndexEntry.url (censusEntryToAct entry1) = js ''https://www.boe.es/a''"
    by (simp add: censusEntryToAct_def entry1_def orElse_def js_def)
  have f: "fetchWithRateLimit (remote host1) (ActIndexEntry.url (censusEntryToAct entry1)) 3
             (net state1) = (Inr (toFetchResult missing), net1)"
    by (simp add: u host1_def state1_def startState_def fetch_404)
  have n: "FetchResult.status (toFetchResult missing) \<noteq> 200"
    by (simp add: toFetchResult_def missing_def)
  have s: "force options_every \<or> seed_files state1 (CensusEntry.ident entry1) = None"
    by (simp add: state1_def startState_def disk1_def)
  have c: "\<not> (source_files state1 (CensusEntry.ident entry1) \<noteq> None
              \<and> skipFetch options_every)"
    by (simp add: options_every_def)
  have m: "censusMap [entry1] (CensusEntry.ident entry1) = Some 0"
    by (simp add: censusMap_def)
  have key: "ActIndexEntry.ident (censusEntryToAct entry1) = CensusEntry.ident entry1"
    by (simp add: censusEntryToAct_def)
  have step: "processEntry host1 options_every (censusMap [entry1]) state1 entry1
                = fallbackFor host1 (censusMap [entry1]) (censusEntryToAct entry1)
                    (FetchResult.status (toFetchResult missing))
                    (state1\<lparr> processed := processed state1 + 1, net := net1 \<rparr>)"
    by (rule processEntry_non200 [OF s c f n])
  have b: "int 1 mod batchSize options_every = 0" "1 mod batchSize options_every = 0"
    by (simp_all add: options_every_def)
  show ?thesis
    unfolding step
    by (simp add: b fallbackFor_def pushResult_def writeFallback_def updateEntry_def key m
          markIngested_def today_def)
       (simp add: host1_def state1_def startState_def census1_def disk1_def)
qed




end
